theory Spec2Isabelle
  imports Complex_Main "HOL-Library.Log_Nat"
begin

section \<open>Go primitives used by the program\<close>

text \<open>
  Run-time panics of Go are values: every function that can panic returns
  \<open>panic + 'a\<close>, with \<open>Inl\<close> the panic.  Strings are byte lists.  The text
  input keeps runes and counts its cursor in runes, while \<open>model.Update\<close> and
  \<open>calculateAccuracy\<close> index bytes; the model covers text of single-byte runes
  (ASCII), where the two agree.  The source makes the same assumption (see the
  note in \<open>View\<close>); text with runes of several bytes is outside the model.
\<close>

datatype panic =
    IndexOutOfRange
  | SliceBoundsOutOfRange
  | NegativeRepeatCount
  | InvalidArgumentToIntn

text \<open>\<open>s[i]\<close>: indexing panics outside \<open>0 \<le> i < len(s)\<close>.\<close>

definition index_at :: "'a list \<Rightarrow> int \<Rightarrow> panic + 'a" where
  "index_at s i = (if 0 \<le> i \<and> i < int (length s) then Inr (s ! nat i) else Inl IndexOutOfRange)"

text \<open>\<open>s[i:]\<close> and \<open>s[:i]\<close>: slicing panics outside \<open>0 \<le> i \<le> len(s)\<close>.\<close>

definition slice_from :: "'a list \<Rightarrow> int \<Rightarrow> panic + 'a list" where
  "slice_from s i =
     (if 0 \<le> i \<and> i \<le> int (length s) then Inr (drop (nat i) s) else Inl SliceBoundsOutOfRange)"

definition slice_to :: "'a list \<Rightarrow> int \<Rightarrow> panic + 'a list" where
  "slice_to s i =
     (if 0 \<le> i \<and> i \<le> int (length s) then Inr (take (nat i) s) else Inl SliceBoundsOutOfRange)"

text \<open>\<open>strings.Index(s, sep)\<close> for a one-byte separator: the index of the first
  occurrence, or \<open>-1\<close>.\<close>

fun strings_Index :: "string \<Rightarrow> char \<Rightarrow> int" where
  "strings_Index [] c = - 1"
| "strings_Index (x # xs) c =
     (if x = c then 0
      else (let r = strings_Index xs c in if r < 0 then - 1 else r + 1))"

text \<open>\<open>strings.Repeat(s, count)\<close> panics on a negative count.\<close>

definition strings_Repeat :: "string \<Rightarrow> int \<Rightarrow> panic + string" where
  "strings_Repeat s n =
     (if n < 0 then Inl NegativeRepeatCount else Inr (concat (replicate (nat n) s)))"

text \<open>\<open>strings.Split(s, "\n")\<close>: the pieces between newlines; always at least one
  piece.\<close>

fun strings_Split :: "string \<Rightarrow> string list" where
  "strings_Split [] = [[]]"
| "strings_Split (c # cs) =
     (if c = CHR 0x0A then [] # strings_Split cs
      else (case strings_Split cs of
              [] \<Rightarrow> [[c]]
            | w # ws \<Rightarrow> (c # w) # ws))"

text \<open>\<open>strings.Join(ws, " ")\<close>.\<close>

fun strings_Join :: "string list \<Rightarrow> string \<Rightarrow> string" where
  "strings_Join [] sep = []"
| "strings_Join [w] sep = w"
| "strings_Join (w # v # ws) sep = w @ sep @ strings_Join (v # ws) sep"

text \<open>Integer division and remainder of Go truncate towards zero.\<close>

definition go_quot :: "int \<Rightarrow> int \<Rightarrow> int" where
  "go_quot a b = sgn a * sgn b * (\<bar>a\<bar> div \<bar>b\<bar>)"

definition go_rem :: "int \<Rightarrow> int \<Rightarrow> int" where
  "go_rem a b = a - b * go_quot a b"

subsection \<open>Floating point\<close>

text \<open>
  A finite IEEE-754 binary number is a rational; an arithmetic operation is the
  exact operation followed by rounding to the nearest number with \<open>p\<close>
  significant bits, ties to even (\<open>p = 53\<close> for \<open>float64\<close>, \<open>p = 24\<close> for
  \<open>float32\<close>).  The exponent is unbounded here: the program's values are
  lengths below \<open>2^63\<close>, their quotients and small multiples, all far from the
  overflow and subnormal ranges, and no division by zero is ever evaluated
  (both divisions of the source are guarded).
\<close>

definition pow2 :: "int \<Rightarrow> rat" where
  "pow2 e = (if 0 \<le> e then 2 ^ nat e else 1 / 2 ^ nat (- e))"

definition round_half_even :: "rat \<Rightarrow> int" where
  "round_half_even y =
     (let f = \<lfloor>y\<rfloor>; r = y - of_int f
      in if r < 1 / 2 then f
         else if 1 / 2 < r then f + 1
         else if even f then f else f + 1)"

text \<open>The exponent \<open>e\<close> of the last significant bit of \<open>x > 0\<close>:
  \<open>2^(p-1) \<le> x / 2^e \<le> 2^p\<close>.\<close>

definition binexp :: "nat \<Rightarrow> rat \<Rightarrow> int" where
  "binexp p x =
     (if 1 \<le> x then bitlen \<lfloor>x\<rfloor> - int p else - bitlen \<lfloor>1 / x\<rfloor> - int p + 1)"

definition round_pos :: "nat \<Rightarrow> rat \<Rightarrow> rat" where
  "round_pos p x = (let e = binexp p x in of_int (round_half_even (x / pow2 e)) * pow2 e)"

definition fl :: "nat \<Rightarrow> rat \<Rightarrow> rat" where
  "fl p x = (if x = 0 then 0 else if 0 < x then round_pos p x else - round_pos p (- x))"

definition f64 :: "rat \<Rightarrow> rat" where
  "f64 = fl 53"

definition f32 :: "rat \<Rightarrow> rat" where
  "f32 = fl 24"

text \<open>\<open>int(x)\<close> of a float discards the fraction (truncation towards zero).\<close>

definition go_int :: "rat \<Rightarrow> int" where
  "go_int x = (if 0 \<le> x then \<lfloor>x\<rfloor> else \<lceil>x\<rceil>)"

text \<open>\<open>time.Duration\<close> is a count of nanoseconds; \<open>Duration.Seconds\<close> is
  \<open>float64(d / Second) + float64(d % Second) / 1e9\<close>.\<close>

definition Second :: int where
  "Second = 1000000000"

definition Seconds :: "int \<Rightarrow> rat" where
  "Seconds d =
     f64 (f64 (of_int (go_quot d Second)) + f64 (f64 (of_int (go_rem d Second)) / 1000000000))"

section \<open>The collaborators: text input and timer\<close>

text \<open>
  \<open>textinput.Model\<close> and \<open>timer.Model\<close> belong to the \<open>bubbles\<close> library, which the
  program imports; they are rendered here as far as \<open>model.Update\<close> and
  \<open>calculateAccuracy\<close> use them.  Of the text input: the text, the cursor and the
  focus flag (\<open>textinput.New\<close> sets no character limit, and \<open>initialModel\<close> gives
  the input the focus; \<open>View\<close> calls \<open>Blur\<close> on its own copy of the model only).  Of
  the timer: the remaining time, the interval and the running flag.
\<close>

record textinput_Model =
  ti_value :: string
  ti_pos :: nat
  ti_focus :: bool

definition Value :: "textinput_Model \<Rightarrow> string" where
  "Value t = ti_value t"

definition Position :: "textinput_Model \<Rightarrow> int" where
  "Position t = int (ti_pos t)"

text \<open>\<open>SetCursor\<close> clamps the position into \<open>[0, len(value)]\<close>.\<close>

definition SetCursor :: "int \<Rightarrow> textinput_Model \<Rightarrow> textinput_Model" where
  "SetCursor n t = t\<lparr>ti_pos := nat (max 0 (min n (int (length (ti_value t)))))\<rparr>"

text \<open>\<open>SetValue\<close> replaces the text; the cursor goes to the end when the input
  was empty with the cursor at 0, or when the cursor would be beyond the new
  text.\<close>

definition SetValue :: "string \<Rightarrow> textinput_Model \<Rightarrow> textinput_Model" where
  "SetValue s t =
     (let empty = (length (ti_value t) = 0);
          t1 = t\<lparr>ti_value := s\<rparr>
      in if (ti_pos t1 = 0 \<and> empty) \<or> ti_pos t1 > length (ti_value t1)
         then SetCursor (int (length (ti_value t1))) t1
         else t1)"

text \<open>Typed runes are inserted at the cursor, which moves behind them.\<close>

definition insertRunesFromUserInput :: "string \<Rightarrow> textinput_Model \<Rightarrow> textinput_Model" where
  "insertRunesFromUserInput v t =
     t\<lparr>ti_value := take (ti_pos t) (ti_value t) @ v @ drop (ti_pos t) (ti_value t),
       ti_pos := ti_pos t + length v\<rparr>"

text \<open>Backspace deletes the character before the cursor, if there is one.\<close>

definition deleteCharacterBackward :: "textinput_Model \<Rightarrow> textinput_Model" where
  "deleteCharacterBackward t =
     (if length (ti_value t) > 0
      then (let t1 = t\<lparr>ti_value := take (ti_pos t - 1) (ti_value t) @ drop (ti_pos t) (ti_value t)\<rparr>
            in if ti_pos t > 0 then SetCursor (int (ti_pos t) - 1) t1 else t1)
      else t)"

text \<open>Moving the cursor: one rune back or forward, to the start, to the end
  (\<open>left\<close>, \<open>right\<close>, \<open>home\<close> and \<open>end\<close> in the key map of the input).\<close>

definition characterBackward :: "textinput_Model \<Rightarrow> textinput_Model" where
  "characterBackward t = (if ti_pos t > 0 then SetCursor (int (ti_pos t) - 1) t else t)"

definition characterForward :: "textinput_Model \<Rightarrow> textinput_Model" where
  "characterForward t =
     (if ti_pos t < length (ti_value t) then SetCursor (int (ti_pos t) + 1) t else t)"

definition CursorStart :: "textinput_Model \<Rightarrow> textinput_Model" where
  "CursorStart t = SetCursor 0 t"

definition CursorEnd :: "textinput_Model \<Rightarrow> textinput_Model" where
  "CursorEnd t = SetCursor (int (length (ti_value t))) t"

text \<open>
  The messages.  \<open>model.Update\<close> switches on the type of a key message and then
  hands every key message that is not a quit key to the text input.
  \<^item> \<open>KeyBackspace\<close>, \<open>KeySpace\<close>: the Backspace and the Space key (the latter
    carries the rune \<open>' '\<close>).
  \<^item> \<open>KeyRunes rs\<close>: a character key message whose runes the text input inserts
    as they are.  This is what the input does with typed printable single-byte
    characters; the text is kept as bytes, one per rune.
  \<^item> \<open>KeyLeft\<close>, \<open>KeyRight\<close>, \<open>KeyHome\<close>, \<open>KeyEnd\<close>: the cursor keys.  \<open>model.Update\<close>
    has no case for them; the text input moves its cursor.
  \<^item> \<open>KeyMsg ty f\<close>: any other key message, given by the type \<open>ty\<close> that the
    switch of \<open>model.Update\<close> sees and by the reaction \<open>f\<close> of the text input to
    it.  The input matches the name of the key against its key map, so among
    these are Delete, the Ctrl and Alt combinations (Alt+Backspace deletes a
    word), and also messages of type \<open>KeyRunes\<close> that the input does not insert
    as they are: runes that spell the name of a bound key such as \<open>left\<close>, pasted
    control characters (which it drops or replaces), runes of several bytes.
  \<^item> \<open>TickMsg\<close>: the tick of the model's own timer.
\<close>

datatype KeyType =
    TypeCtrlC
  | TypeEsc
  | TypeBackspace
  | TypeSpace
  | TypeRunes
  | TypeOther

datatype msg =
    KeyCtrlC
  | KeyEsc
  | KeyBackspace
  | KeySpace
  | KeyRunes string
  | KeyLeft
  | KeyRight
  | KeyHome
  | KeyEnd
  | KeyMsg KeyType "textinput_Model \<Rightarrow> textinput_Model"
  | TickMsg

text \<open>\<open>msg.Type\<close> of a key message, as far as the switch of \<open>model.Update\<close>
  distinguishes it.\<close>

fun msgType :: "msg \<Rightarrow> KeyType" where
  "msgType KeyCtrlC = TypeCtrlC"
| "msgType KeyEsc = TypeEsc"
| "msgType KeyBackspace = TypeBackspace"
| "msgType KeySpace = TypeSpace"
| "msgType (KeyRunes rs) = TypeRunes"
| "msgType (KeyMsg ty f) = ty"
| "msgType k = TypeOther"

text \<open>\<open>textinput.Model.Update\<close> for a key message: nothing happens without
  focus; Backspace deletes backwards; the cursor keys move the cursor; Space
  and character keys match no key binding of the input, which inserts the
  runes they carry.\<close>

definition textinput_Update :: "msg \<Rightarrow> textinput_Model \<Rightarrow> textinput_Model" where
  "textinput_Update m t =
     (if \<not> ti_focus t then t
      else (case m of
              KeyBackspace \<Rightarrow> deleteCharacterBackward t
            | KeySpace \<Rightarrow> insertRunesFromUserInput [CHR '' ''] t
            | KeyRunes rs \<Rightarrow> insertRunesFromUserInput rs t
            | KeyLeft \<Rightarrow> characterBackward t
            | KeyRight \<Rightarrow> characterForward t
            | KeyHome \<Rightarrow> CursorStart t
            | KeyEnd \<Rightarrow> CursorEnd t
            | KeyMsg ty f \<Rightarrow> f t
            | _ \<Rightarrow> t))"

record timer_Model =
  Timeout :: int
  Interval :: int
  running :: bool

definition timer_New :: "int \<Rightarrow> timer_Model" where
  "timer_New d = \<lparr>Timeout = d, Interval = Second, running = True\<rparr>"

definition Timedout :: "timer_Model \<Rightarrow> bool" where
  "Timedout t = (Timeout t \<le> 0)"

definition Running :: "timer_Model \<Rightarrow> bool" where
  "Running t = (if Timedout t \<or> \<not> running t then False else True)"

text \<open>A tick of a running timer takes one interval off the remaining time.\<close>

definition timer_Update :: "timer_Model \<Rightarrow> timer_Model" where
  "timer_Update t = (if \<not> Running t then t else t\<lparr>Timeout := Timeout t - Interval t\<rparr>)"

section \<open>The session model\<close>

definition DURATION :: int where
  "DURATION = Second * 10"

text \<open>
  The fields of \<open>model\<close> that the engine reads or writes (\<open>help\<close>, \<open>keymap\<close> and the
  never-assigned \<open>incorrectCount\<close> are presentation only).  \<open>errorPositions\<close> is a
  \<open>map[int]bool\<close> whose entries are only ever set to \<open>true\<close>: it is kept as its
  key set, and \<open>len(m.errorPositions)\<close> is the cardinality.  \<open>accuracy\<close> holds a
  \<open>float32\<close> value.  \<open>maxTyped\<close> only ever receives lengths.
\<close>

record model =
  textInput :: textinput_Model
  ghostText :: string
  wordsPerMinute :: int
  timer :: timer_Model
  started :: bool
  accuracy :: rat
  errorPositions :: "nat set"
  maxTyped :: nat

definition initialModel :: "string \<Rightarrow> model" where
  "initialModel text =
     \<lparr>textInput = \<lparr>ti_value = [], ti_pos = 0, ti_focus = True\<rparr>,
      ghostText = text,
      wordsPerMinute = 0,
      timer = timer_New DURATION,
      started = False,
      accuracy = 100,
      errorPositions = {},
      maxTyped = 0\<rparr>"

text \<open>The marking loop of \<open>calculateAccuracy\<close>:
  \<open>for i := 0; i < len(input); i++ { if input[i] != m.ghostText[i] { m.errorPositions[i] = true } }\<close>,
  started at index \<open>i\<close>.  Reading \<open>m.ghostText[i]\<close> beyond the ghost text panics.\<close>

function markErrors :: "nat \<Rightarrow> string \<Rightarrow> string \<Rightarrow> nat set \<Rightarrow> panic + nat set" where
  "markErrors i input ghost ep =
     (if i < length input
      then (if i < length ghost
            then markErrors (Suc i) input ghost
                   (if input ! i \<noteq> ghost ! i then insert i ep else ep)
            else Inl IndexOutOfRange)
      else Inr ep)"
  by pat_completeness auto
termination
  by (relation "measure (\<lambda>(i, input, ghost, ep). length input - i)") auto

declare markErrors.simps [simp del]

definition calculateAccuracy :: "model \<Rightarrow> panic + model" where
  "calculateAccuracy m =
     (let input = Value (textInput m)
      in if length input \<le> 0 then Inr m
         else (case markErrors 0 input (ghostText m) (errorPositions m) of
                 Inl p \<Rightarrow> Inl p
               | Inr ep \<Rightarrow>
                   (let m1 = m\<lparr>errorPositions := ep\<rparr>
                    in if length input > maxTyped m1
                       then (let correct = int (length input) - int (card (errorPositions m1))
                             in Inr (m1\<lparr>maxTyped := length input,
                                        accuracy :=
                                          f32 (f32 (f32 (of_int correct) / f32 (of_nat (length input))) * 100)\<rparr>))
                       else Inr m1)))"

text \<open>The common tail of the key branch of \<open>Update\<close>: the key goes to the text
  input, then the accuracy is recomputed once the session has started.\<close>

definition keyTail :: "msg \<Rightarrow> model \<Rightarrow> panic + model" where
  "keyTail k m =
     (let m1 = m\<lparr>textInput := textinput_Update k (textInput m)\<rparr>
      in if started m1 then calculateAccuracy m1 else Inr m1)"

text \<open>\<open>model.Update\<close>: for a key message the switch on \<open>msg.Type\<close>, then the
  common tail; for a tick the metrics and the timer.  The returned command is
  not part of the state and is left out (\<open>tea.Quit\<close> ends the program; the
  timer's first tick is requested when \<open>started\<close> becomes true).\<close>

definition Update :: "model \<Rightarrow> msg \<Rightarrow> panic + model" where
  "Update m k =
     (let cursorPos = Position (textInput m)
      in case k of
           TickMsg \<Rightarrow>
             (if Timedout (timer m) then Inr m
              else (let v = Value (textInput m);
                        words = f64 (f64 (of_nat (length v)) / 5);
                        elapsed = f64 (Seconds DURATION - Seconds (Timeout (timer m)));
                        m1 = (if elapsed \<ge> f64 (1 / 10)
                              then m\<lparr>wordsPerMinute := go_int (f64 (words * f64 (60 / elapsed)))\<rparr>
                              else m)
                    in Inr (m1\<lparr>timer := timer_Update (timer m1)\<rparr>)))
         | _ \<Rightarrow>
          (case msgType k of
             TypeCtrlC \<Rightarrow> Inr m
           | TypeEsc \<Rightarrow> Inr m
           | TypeBackspace \<Rightarrow>
               (if cursorPos \<ge> int (length (ghostText m)) then keyTail k m
                else (case index_at (ghostText m) cursorPos of
                        Inl p \<Rightarrow> Inl p
                      | Inr a \<Rightarrow>
                          if a = CHR '' ''
                          then (case index_at (ghostText m) (cursorPos - 1) of
                                  Inl p \<Rightarrow> Inl p
                                | Inr b \<Rightarrow>
                                    if b = CHR '' ''
                                    then (case slice_to (ghostText m) (cursorPos - 1) of
                                            Inl p \<Rightarrow> Inl p
                                          | Inr l \<Rightarrow>
                                              (case slice_from (ghostText m) cursorPos of
                                                 Inl p \<Rightarrow> Inl p
                                               | Inr r \<Rightarrow> keyTail k (m\<lparr>ghostText := l @ r\<rparr>)))
                                    else keyTail k m)
                          else keyTail k m))
           | TypeSpace \<Rightarrow>
               (if Timedout (timer m) then Inr m
                else (case slice_from (ghostText m) cursorPos of
                        Inl p \<Rightarrow> Inl p
                      | Inr rest \<Rightarrow>
                          (let nextWordPos = strings_Index rest (CHR '' '');
                               cur = Value (textInput m)
                           in case strings_Repeat [CHR '' ''] nextWordPos of
                                Inl p \<Rightarrow> Inl p
                              | Inr sp \<Rightarrow>
                                  (let newStr = cur @ sp;
                                       t1 = SetValue newStr (textInput m);
                                       t2 = SetCursor (int (length newStr)) t1
                                   in keyTail k (m\<lparr>textInput := t2\<rparr>)))))
           | TypeRunes \<Rightarrow>
               (if Timedout (timer m) then Inr m
                else (case index_at (ghostText m) cursorPos of
                        Inl p \<Rightarrow> Inl p
                      | Inr a \<Rightarrow>
                          (case (if a = CHR '' ''
                                 then (case slice_to (ghostText m) cursorPos of
                                         Inl p \<Rightarrow> Inl p
                                       | Inr l \<Rightarrow>
                                           (case slice_from (ghostText m) cursorPos of
                                              Inl p \<Rightarrow> Inl p
                                            | Inr r \<Rightarrow> Inr (m\<lparr>ghostText := l @ [CHR '' ''] @ r\<rparr>)))
                                 else Inr m) of
                             Inl p \<Rightarrow> Inl p
                           | Inr m1 \<Rightarrow>
                               keyTail k (if \<not> started m1 then m1\<lparr>started := True\<rparr> else m1))))
           | TypeOther \<Rightarrow> keyTail k m))"

text \<open>A session: the messages are handled one after the other; a panic ends
  the program.\<close>

fun run :: "model \<Rightarrow> msg list \<Rightarrow> panic + model" where
  "run m [] = Inr m"
| "run m (k # ks) = (case Update m k of Inl p \<Rightarrow> Inl p | Inr m' \<Rightarrow> run m' ks)"

section \<open>The word source\<close>

text \<open>
  The environment of \<open>getWords\<close>: the outcome of \<open>os.ReadFile("words.txt")\<close>
  (an error or the contents), and the random source.  \<open>rand.Intn(n)\<close> panics
  for \<open>n \<le> 0\<close> and otherwise returns some number in \<open>[0, n)\<close>; the \<open>j\<close>-th call
  reduces the \<open>j\<close>-th raw draw \<open>rnd j\<close> into that range, so every index in the
  range is the result for some random source.
\<close>

datatype ioerror = ReadFileError

definition rand_Intn :: "nat \<Rightarrow> int \<Rightarrow> panic + int" where
  "rand_Intn r n = (if n \<le> 0 then Inl InvalidArgumentToIntn else Inr (int r mod n))"

text \<open>The loop \<open>for range count\<close>, with \<open>c\<close> iterations left and \<open>j\<close> draws made.\<close>

fun getWords_loop ::
  "nat \<Rightarrow> nat \<Rightarrow> (nat \<Rightarrow> nat) \<Rightarrow> string list \<Rightarrow> string list \<Rightarrow> panic + string list" where
  "getWords_loop 0 j rnd words selectedWords = Inr selectedWords"
| "getWords_loop (Suc c) j rnd words selectedWords =
     (case rand_Intn (rnd j) (int (length words) - 1) of
        Inl p \<Rightarrow> Inl p
      | Inr randIdx \<Rightarrow>
          (case index_at words randIdx of
             Inl p \<Rightarrow> Inl p
           | Inr randWord \<Rightarrow> getWords_loop c (Suc j) rnd words (selectedWords @ [randWord])))"

text \<open>The result of \<open>getWords\<close> is a panic, or the returned pair: the error of
  the read, or the selected words.\<close>

definition getWords :: "int \<Rightarrow> ioerror + string \<Rightarrow> (nat \<Rightarrow> nat) \<Rightarrow> panic + (ioerror + string list)" where
  "getWords count file rnd =
     (case file of
        Inl err \<Rightarrow> Inr (Inl err)
      | Inr contents \<Rightarrow>
          (let words = strings_Split contents
           in case getWords_loop (nat count) 0 rnd words [] of
                Inl p \<Rightarrow> Inl p
              | Inr selectedWords \<Rightarrow> Inr (Inr selectedWords)))"

text \<open>The start of \<open>main\<close>: 200 words, joined by single spaces, are the ghost
  text of the initial model; a read error ends the program (\<open>log.Fatal\<close>).\<close>

definition main_model :: "ioerror + string \<Rightarrow> (nat \<Rightarrow> nat) \<Rightarrow> panic + (ioerror + model)" where
  "main_model file rnd =
     (case getWords 200 file rnd of
        Inl p \<Rightarrow> Inl p
      | Inr (Inl err) \<Rightarrow> Inr (Inl err)
      | Inr (Inr words) \<Rightarrow> Inr (Inr (initialModel (strings_Join words [CHR '' '']))))"

section \<open>Properties of session states\<close>

text \<open>The typed text ends at the cursor, and the cursor is within the ghost
  text.\<close>

definition cursor_inv :: "model \<Rightarrow> bool" where
  "cursor_inv m =
     (int (length (Value (textInput m))) = Position (textInput m) \<and>
      Position (textInput m) \<le> int (length (ghostText m)))"


text \<open>A state with the cursor at the end of the typed text: the input has
  the focus and \<open>cursor_inv\<close> holds.  (The cursor keys lead to other states.)\<close>

definition aligned :: "model \<Rightarrow> bool" where
  "aligned m = (ti_focus (textInput m) \<and> cursor_inv m)"

text \<open>The clock of a session: a running one-second timer with a whole number
  of seconds, at most the session duration, left; and a word rate that is
  never negative and still 0 while the whole duration is left.\<close>

definition clock_inv :: "model \<Rightarrow> bool" where
  "clock_inv m =
     (Interval (timer m) = Second \<and> running (timer m) \<and>
      (\<exists>k\<in>{0..10}. Timeout (timer m) = k * Second) \<and>
      0 \<le> wordsPerMinute m \<and>
      (Timeout (timer m) = DURATION \<longrightarrow> wordsPerMinute m = 0))"

text \<open>The elapsed time as the tick handler computes it.\<close>

definition elapsed :: "model \<Rightarrow> rat" where
  "elapsed m = f64 (Seconds DURATION - Seconds (Timeout (timer m)))"

section \<open>The marking loop\<close>

lemma markErrors_unfold:
  "i < length input \<Longrightarrow> i < length ghost \<Longrightarrow>
     markErrors i input ghost ep =
       markErrors (Suc i) input ghost (if input ! i \<noteq> ghost ! i then insert i ep else ep)"
  "i < length input \<Longrightarrow> \<not> i < length ghost \<Longrightarrow> markErrors i input ghost ep = Inl IndexOutOfRange"
  "\<not> i < length input \<Longrightarrow> markErrors i input ghost ep = Inr ep"
  by (subst markErrors.simps, simp)+

lemma markErrors_char:
  "markErrors i input ghost ep = Inr ep' \<Longrightarrow>
     ep' = ep \<union> {j. i \<le> j \<and> j < length input \<and> input ! j \<noteq> ghost ! j}"
proof (induction i input ghost ep rule: markErrors.induct)
  case (1 i input ghost ep)
  show ?case
  proof (cases "i < length input")
    case False
    with "1.prems" show ?thesis by (auto simp add: markErrors_unfold)
  next
    case inp: True
    show ?thesis
    proof (cases "i < length ghost")
      case False
      with inp "1.prems" show ?thesis by (simp add: markErrors_unfold)
    next
      case True
      let ?ep1 = "if input ! i \<noteq> ghost ! i then insert i ep else ep"
      from inp True "1.prems" have "markErrors (Suc i) input ghost ?ep1 = Inr ep'"
        by (simp add: markErrors_unfold)
      with "1.IH" [OF inp True] have
        "ep' = ?ep1 \<union> {j. Suc i \<le> j \<and> j < length input \<and> input ! j \<noteq> ghost ! j}"
        by simp
      moreover have "{j. i \<le> j \<and> j < length input \<and> input ! j \<noteq> ghost ! j} =
          (if input ! i \<noteq> ghost ! i then {i} else {}) \<union>
          {j. Suc i \<le> j \<and> j < length input \<and> input ! j \<noteq> ghost ! j}"
        using inp by (auto simp: Suc_le_eq le_less)
      ultimately show ?thesis by auto
    qed
  qed
qed

lemma markErrors_total:
  "length input \<le> length ghost \<Longrightarrow> \<exists>ep'. markErrors i input ghost ep = Inr ep'"
proof (induction i input ghost ep rule: markErrors.induct)
  case (1 i input ghost ep)
  show ?case
  proof (cases "i < length input")
    case False
    then show ?thesis by (simp add: markErrors_unfold)
  next
    case True
    with "1.prems" have g: "i < length ghost" by simp
    from "1.IH" [OF True g "1.prems"] True g show ?thesis
      by (simp add: markErrors_unfold)
  qed
qed

lemma markErrors_bound:
  "markErrors i input ghost ep = Inr ep' \<Longrightarrow> i < length input \<Longrightarrow> length input \<le> length ghost"
proof (induction i input ghost ep rule: markErrors.induct)
  case (1 i input ghost ep)
  from "1.prems" have g: "i < length ghost"
    by (cases "i < length ghost") (simp_all add: markErrors_unfold)
  let ?ep1 = "if input ! i \<noteq> ghost ! i then insert i ep else ep"
  from "1.prems" g have next_ok: "markErrors (Suc i) input ghost ?ep1 = Inr ep'"
    by (simp add: markErrors_unfold)
  show ?case
  proof (cases "Suc i < length input")
    case True
    from "1.IH" [OF "1.prems"(2) g next_ok True] show ?thesis .
  next
    case False
    with "1.prems"(2) g show ?thesis by simp
  qed
qed

lemma markErrors_idem:
  assumes "markErrors i input ghost ep = Inr ep'"
  shows "markErrors i input ghost ep' = Inr ep'"
proof (cases "i < length input")
  case False
  with assms show ?thesis by (simp add: markErrors_unfold)
next
  case True
  from markErrors_bound [OF assms True] obtain ep'' where
    again: "markErrors i input ghost ep' = Inr ep''"
    using markErrors_total by blast
  from markErrors_char [OF assms] markErrors_char [OF again] have "ep'' = ep'" by auto
  with again show ?thesis by simp
qed

section \<open>How the handlers change the state\<close>

lemma calculateAccuracy_frame:
  assumes "calculateAccuracy m = Inr m'"
  shows "textInput m' = textInput m" and "ghostText m' = ghostText m"
    and "timer m' = timer m" and "started m' = started m"
    and "wordsPerMinute m' = wordsPerMinute m"
    and "errorPositions m \<subseteq> errorPositions m'"
  using assms
  by (auto simp: calculateAccuracy_def Let_def
      split: if_splits sum.splits dest: markErrors_char)

lemma keyTail_cases:
  assumes "keyTail k m = Inr m'"
  shows "(\<not> started m \<and> m' = m\<lparr>textInput := textinput_Update k (textInput m)\<rparr>) \<or>
         (started m \<and> calculateAccuracy (m\<lparr>textInput := textinput_Update k (textInput m)\<rparr>) = Inr m')"
  using assms by (simp add: keyTail_def Let_def split: if_splits)

lemma keyTail_frame:
  assumes "keyTail k m = Inr m'"
  shows "textInput m' = textinput_Update k (textInput m)" and "ghostText m' = ghostText m"
    and "timer m' = timer m" and "started m' = started m"
    and "wordsPerMinute m' = wordsPerMinute m"
    and "errorPositions m \<subseteq> errorPositions m'"
  using keyTail_cases [OF assms]
    calculateAccuracy_frame [of "m\<lparr>textInput := textinput_Update k (textInput m)\<rparr>" m']
  by auto

lemma calculateAccuracy_gate:
  assumes "calculateAccuracy m = Inr m'"
  shows "if length (Value (textInput m)) > maxTyped m
         then maxTyped m' = length (Value (textInput m)) \<and>
              accuracy m' =
                f32 (f32 (f32 (of_int (int (length (Value (textInput m))) - int (card (errorPositions m')))) /
                          f32 (of_nat (length (Value (textInput m))))) * 100)
         else maxTyped m' = maxTyped m \<and> accuracy m' = accuracy m"
  using assms
  by (auto simp: calculateAccuracy_def Let_def split: if_splits sum.splits)

subsection \<open>Searching the ghost text\<close>

lemma strings_Index_range: "- 1 \<le> strings_Index s c \<and> strings_Index s c < int (length s)"
  by (induction s) (auto simp: Let_def)

lemma strings_Index_found:
  "strings_Index s c = int k \<Longrightarrow> k < length s \<and> s ! k = c \<and> (\<forall>j<k. s ! j \<noteq> c)"
proof (induction s arbitrary: k)
  case Nil
  then show ?case by simp
next
  case (Cons x xs)
  show ?case
  proof (cases "x = c")
    case True
    with Cons.prems show ?thesis by simp
  next
    case False
    with Cons.prems have nn: "\<not> strings_Index xs c < 0" and eq: "strings_Index xs c + 1 = int k"
      by (auto simp: Let_def split: if_splits)
    then obtain k' where k: "k = Suc k'" and idx: "strings_Index xs c = int k'"
      by (cases k) auto
    from Cons.IH [OF idx] False k show ?thesis
      by (auto simp: nth_Cons split: nat.splits)
  qed
qed

lemma strings_Index_absent: "strings_Index s c < 0 \<longleftrightarrow> c \<notin> set s"
proof (induction s)
  case Nil
  then show ?case by simp
next
  case (Cons x xs)
  from strings_Index_range [of xs c] have "- 1 \<le> strings_Index xs c" by simp
  with Cons show ?case by (auto simp: Let_def)
qed

subsection \<open>The cursor at the end of the typed text\<close>

lemma aligned_unfold:
  "aligned m \<longleftrightarrow> ti_focus (textInput m) \<and> ti_pos (textInput m) = length (ti_value (textInput m)) \<and>
     length (ti_value (textInput m)) \<le> length (ghostText m)"
  by (auto simp: aligned_def cursor_inv_def Value_def Position_def)

lemma calculateAccuracy_bound:
  assumes "calculateAccuracy m = Inr m'"
  shows "length (ti_value (textInput m)) \<le> length (ghostText m)"
proof (cases "length (ti_value (textInput m)) = 0")
  case True
  then show ?thesis by simp
next
  case False
  with assms obtain ep where "markErrors 0 (ti_value (textInput m)) (ghostText m) (errorPositions m) = Inr ep"
    by (auto simp: calculateAccuracy_def Let_def Value_def split: sum.splits)
  from markErrors_bound [OF this] False show ?thesis by simp
qed

lemma calculateAccuracy_total:
  assumes "length (ti_value (textInput m)) \<le> length (ghostText m)"
  shows "\<exists>m'. calculateAccuracy m = Inr m'"
  using markErrors_total [OF assms, of 0 "errorPositions m"]
  by (auto simp: calculateAccuracy_def Let_def Value_def)

lemma keyTail_total:
  assumes "length (ti_value (textinput_Update k (textInput m))) \<le> length (ghostText m)"
  shows "\<exists>m'. keyTail k m = Inr m'"
  using calculateAccuracy_total [of "m\<lparr>textInput := textinput_Update k (textInput m)\<rparr>"] assms
  by (auto simp: keyTail_def Let_def)

lemma textinput_Update_end:
  assumes "ti_focus t" and "ti_pos t = length (ti_value t)"
  shows "textinput_Update KeyBackspace t = t\<lparr>ti_value := butlast (ti_value t), ti_pos := length (ti_value t) - 1\<rparr>"
    and "textinput_Update KeySpace t = t\<lparr>ti_value := ti_value t @ [CHR '' ''], ti_pos := Suc (length (ti_value t))\<rparr>"
    and "textinput_Update (KeyRunes rs) t = t\<lparr>ti_value := ti_value t @ rs, ti_pos := length (ti_value t) + length rs\<rparr>"
  using assms
  by (auto simp: textinput_Update_def deleteCharacterBackward_def insertRunesFromUserInput_def
      SetCursor_def Let_def butlast_conv_take)

subsection \<open>The handlers, message by message\<close>

lemma concat_replicate_single: "concat (replicate n [c]) = replicate n c"
  by (induction n) simp_all

lemma started_update_True: "(if \<not> started m then m\<lparr>started := True\<rparr> else m) = m\<lparr>started := True\<rparr>"
  by (cases m) simp

lemma started_noop: "started m \<Longrightarrow> m\<lparr>started := True\<rparr> = m"
  by (cases m) simp

lemma Update_TypeQuit:
  assumes "msgType k = TypeCtrlC \<or> msgType k = TypeEsc"
  shows "Update m k = Inr m"
  using assms by (cases k) (auto simp: Update_def Let_def)

lemma Update_TypeOther:
  assumes "msgType k = TypeOther" and "k \<noteq> TickMsg"
  shows "Update m k = keyTail k m"
  using assms by (cases k) (auto simp: Update_def Let_def)

lemma Update_TypeBackspace:
  assumes "msgType k = TypeBackspace"
  shows "Update m k =
     (let p = ti_pos (textInput m); g = ghostText m
      in if p \<ge> length g then keyTail k m
         else if g ! p = CHR '' ''
              then (if p = 0 then Inl IndexOutOfRange
                    else if g ! (p - 1) = CHR '' ''
                         then keyTail k (m\<lparr>ghostText := take (p - 1) g @ drop p g\<rparr>)
                         else keyTail k m)
              else keyTail k m)"
  using assms
  by (cases k)
    (auto simp: Update_def Let_def Position_def index_at_def slice_to_def slice_from_def
      nat_diff_distrib)

lemma Update_TypeRunes:
  assumes "msgType k = TypeRunes"
  shows "Update m k =
     (let p = ti_pos (textInput m); g = ghostText m
      in if Timedout (timer m) then Inr m
         else if p \<ge> length g then Inl IndexOutOfRange
         else keyTail k
                ((if g ! p = CHR '' '' then m\<lparr>ghostText := take p g @ [CHR '' ''] @ drop p g\<rparr> else m)
                   \<lparr>started := True\<rparr>))"
  using assms
  by (cases k)
    (auto simp: Update_def Let_def Position_def index_at_def slice_to_def slice_from_def
      started_update_True started_noop)

lemma Update_TypeSpace:
  assumes "msgType k = TypeSpace"
  shows "Update m k =
     (let p = ti_pos (textInput m); g = ghostText m
      in if Timedout (timer m) then Inr m
         else if p > length g then Inl SliceBoundsOutOfRange
         else if strings_Index (drop p g) (CHR '' '') < 0 then Inl NegativeRepeatCount
         else (let newStr = ti_value (textInput m) @
                      replicate (nat (strings_Index (drop p g) (CHR '' ''))) (CHR '' '')
               in keyTail k
                    (m\<lparr>textInput := SetCursor (int (length newStr)) (SetValue newStr (textInput m))\<rparr>)))"
  using assms
  by (cases k)
    (auto simp: Update_def Let_def Position_def Value_def slice_from_def strings_Repeat_def
      concat_replicate_single)

lemmas Update_KeyBackspace = Update_TypeBackspace [of KeyBackspace, simplified]
lemmas Update_KeyRunes = Update_TypeRunes [of "KeyRunes rs", simplified] for rs
lemmas Update_KeySpace = Update_TypeSpace [of KeySpace, simplified]

text \<open>Every key message is handled by the common tail, after a change that
  touches neither the clock nor the metrics, or leaves the state as it is.\<close>

lemma Update_key_step:
  assumes ok: "Update m k = Inr m'" and key: "k \<noteq> TickMsg"
  shows "m' = m \<or>
         (\<exists>m1. keyTail k m1 = Inr m' \<and> errorPositions m1 = errorPositions m \<and>
               timer m1 = timer m \<and> wordsPerMinute m1 = wordsPerMinute m \<and>
               maxTyped m1 = maxTyped m \<and> accuracy m1 = accuracy m)"
proof (cases "msgType k")
  case TypeCtrlC
  with ok show ?thesis by (simp add: Update_TypeQuit)
next
  case TypeEsc
  with ok show ?thesis by (simp add: Update_TypeQuit)
next
  case TypeBackspace
  from ok show ?thesis
    unfolding Update_TypeBackspace [OF TypeBackspace] Let_def
    by (auto split: if_splits)
next
  case TypeSpace
  from ok show ?thesis
    unfolding Update_TypeSpace [OF TypeSpace] Let_def
    by (auto split: if_splits)
next
  case TypeRunes
  from ok show ?thesis
    unfolding Update_TypeRunes [OF TypeRunes] Let_def
    by (auto split: if_splits)
next
  case TypeOther
  with ok key show ?thesis by (auto simp: Update_TypeOther)
qed

lemma Update_errorPositions_mono:
  assumes "Update m k = Inr m'"
  shows "errorPositions m \<subseteq> errorPositions m'"
proof (cases "k = TickMsg")
  case True
  with assms show ?thesis
    by (auto simp: Update_def Let_def split: if_splits)
next
  case False
  from Update_key_step [OF assms False] show ?thesis
    by (auto dest: keyTail_frame(6))
qed

lemma run_errorPositions_mono:
  "run m ks = Inr m' \<Longrightarrow> errorPositions m \<subseteq> errorPositions m'"
proof (induction ks arbitrary: m)
  case Nil
  then show ?case by simp
next
  case (Cons k ks)
  from Cons.prems obtain m1 where s1: "Update m k = Inr m1" and s2: "run m1 ks = Inr m'"
    by (auto split: sum.splits)
  from Update_errorPositions_mono [OF s1] Cons.IH [OF s2] show ?case by blast
qed

lemma timedout_rejects_space_and_runes:
  assumes "Timedout (timer m)"
  shows "Update m KeySpace = Inr m" and "Update m (KeyRunes rs) = Inr m" and "Update m TickMsg = Inr m"
  using assms by (simp_all add: Update_def)

lemma Update_TickMsg:
  "Update m TickMsg =
     (if Timedout (timer m) then Inr m
      else Inr ((if elapsed m \<ge> f64 (1 / 10)
                 then m\<lparr>wordsPerMinute :=
                          go_int (f64 (f64 (f64 (of_nat (length (Value (textInput m)))) / 5) *
                                       f64 (60 / elapsed m)))\<rparr>
                 else m)\<lparr>timer := timer_Update (timer m)\<rparr>))"
  by (auto simp: Update_def Let_def elapsed_def)

lemma SetValue_SetCursor_end:
  "SetCursor (int (length s)) (SetValue s t) = t\<lparr>ti_value := s, ti_pos := length s\<rparr>"
  by (cases t) (auto simp: SetValue_def SetCursor_def Let_def)

subsection \<open>The cursor stays within the ghost text\<close>

lemma keyTail_aligned:
  assumes ok: "keyTail k m = Inr m'"
    and foc: "ti_focus (textinput_Update k (textInput m))"
    and pos: "ti_pos (textinput_Update k (textInput m)) = length (ti_value (textinput_Update k (textInput m)))"
    and len: "started m \<or> length (ti_value (textinput_Update k (textInput m))) \<le> length (ghostText m)"
  shows "aligned m'"
proof -
  let ?m1 = "m\<lparr>textInput := textinput_Update k (textInput m)\<rparr>"
  have "length (ti_value (textinput_Update k (textInput m))) \<le> length (ghostText m)"
  proof (cases "started m")
    case True
    with keyTail_cases [OF ok] have "calculateAccuracy ?m1 = Inr m'" by simp
    from calculateAccuracy_bound [OF this] show ?thesis by simp
  next
    case False
    with len show ?thesis by simp
  qed
  with keyTail_frame(1,2) [OF ok] foc pos show ?thesis
    by (simp add: aligned_unfold)
qed

lemma Update_KeySpace_result:
  assumes foc: "ti_focus (textInput m)" and run: "\<not> Timedout (timer m)"
    and idx: "strings_Index (drop (ti_pos (textInput m)) (ghostText m)) (CHR '' '') = int k"
    and room: "\<not> started m \<or> length (ti_value (textInput m)) + k < length (ghostText m)"
  shows "\<exists>m'. Update m KeySpace = Inr m' \<and>
           textInput m' = (textInput m)\<lparr>ti_value := ti_value (textInput m) @ replicate (Suc k) (CHR '' ''),
                                        ti_pos := length (ti_value (textInput m)) + Suc k\<rparr> \<and>
           ghostText m' = ghostText m"
proof -
  let ?t = "textInput m"
  let ?s = "ti_value ?t @ replicate k (CHR '' '')"
  let ?t2 = "?t\<lparr>ti_value := ?s, ti_pos := length ?s\<rparr>"
  let ?m2 = "m\<lparr>textInput := ?t2\<rparr>"
  let ?t3 = "?t\<lparr>ti_value := ti_value ?t @ replicate (Suc k) (CHR '' ''),
                 ti_pos := length (ti_value ?t) + Suc k\<rparr>"
  from strings_Index_found [OF idx] have le: "ti_pos ?t \<le> length (ghostText m)"
    by auto
  have step: "Update m KeySpace = keyTail KeySpace ?m2"
    using run idx le by (simp add: Update_KeySpace Let_def SetValue_SetCursor_end)
  have upd: "textinput_Update KeySpace ?t2 = ?t3"
    using foc by (simp add: textinput_Update_end(2) replicate_append_same)
  have "\<exists>m'. keyTail KeySpace ?m2 = Inr m'"
  proof (cases "started m")
    case False
    then show ?thesis by (simp add: keyTail_def Let_def)
  next
    case True
    have u2: "textinput_Update KeySpace (textInput ?m2) = ?t3"
      using upd by simp
    from room True have "length (ti_value ?t3) \<le> length (ghostText ?m2)"
      by simp
    then have "length (ti_value (textinput_Update KeySpace (textInput ?m2))) \<le> length (ghostText ?m2)"
      by (simp only: u2)
    from keyTail_total [OF this] show ?thesis .
  qed
  then obtain m' where m': "keyTail KeySpace ?m2 = Inr m'" ..
  from keyTail_frame(1,2) [OF m'] upd have "textInput m' = ?t3" and "ghostText m' = ghostText m"
    by simp_all
  with step m' show ?thesis by simp
qed

lemma Update_KeyRunes_result:
  assumes al: "aligned m" and run: "\<not> Timedout (timer m)"
    and ok: "Update m (KeyRunes rs) = Inr m'"
  shows "textInput m' = (textInput m)\<lparr>ti_value := ti_value (textInput m) @ rs,
                                       ti_pos := length (ti_value (textInput m)) + length rs\<rparr>"
    and "ghostText m' =
           (if ghostText m ! ti_pos (textInput m) = CHR '' ''
            then take (ti_pos (textInput m)) (ghostText m) @ [CHR '' ''] @
                 drop (ti_pos (textInput m)) (ghostText m)
            else ghostText m)"
    and "started m'" and "aligned m'"
proof -
  let ?t = "textInput m"
  let ?g = "ghostText m"
  let ?m1 = "(if ?g ! ti_pos ?t = CHR '' '' then m\<lparr>ghostText := take (ti_pos ?t) ?g @ [CHR '' ''] @ drop (ti_pos ?t) ?g\<rparr>
              else m)\<lparr>started := True\<rparr>"
  from al have foc: "ti_focus ?t" and pos: "ti_pos ?t = length (ti_value ?t)"
    by (simp_all add: aligned_unfold)
  from ok run have kt: "keyTail (KeyRunes rs) ?m1 = Inr m'"
    by (simp add: Update_KeyRunes Let_def split: if_splits)
  have ti: "textInput ?m1 = ?t" by simp
  note upd = textinput_Update_end(3) [OF foc pos, of rs]
  from keyTail_frame(1) [OF kt] ti upd
  show "textInput m' = ?t\<lparr>ti_value := ti_value ?t @ rs, ti_pos := length (ti_value ?t) + length rs\<rparr>"
    by simp
  from keyTail_frame(2) [OF kt]
  show "ghostText m' = (if ?g ! ti_pos ?t = CHR '' '' then take (ti_pos ?t) ?g @ [CHR '' ''] @ drop (ti_pos ?t) ?g
            else ?g)"
    by simp
  from keyTail_frame(4) [OF kt] show "started m'" by simp
  have "started ?m1" by simp
  with keyTail_aligned [OF kt] ti upd foc show "aligned m'" by simp
qed

lemma initialModel_aligned: "aligned (initialModel text)"
  by (simp add: aligned_unfold initialModel_def)

lemma Update_KeyRunes_total:
  assumes al: "aligned m" and run: "\<not> Timedout (timer m)"
    and p: "ti_pos (textInput m) < length (ghostText m)"
    and fits: "ghostText m ! ti_pos (textInput m) = CHR '' '' \<or>
               ti_pos (textInput m) + length rs \<le> length (ghostText m)"
    and one: "length rs \<le> 1 \<or> ti_pos (textInput m) + length rs \<le> length (ghostText m)"
  shows "\<exists>m'. Update m (KeyRunes rs) = Inr m'"
proof -
  let ?t = "textInput m"
  let ?g = "ghostText m"
  let ?m1 = "(if ?g ! ti_pos ?t = CHR '' '' then m\<lparr>ghostText := take (ti_pos ?t) ?g @ [CHR '' ''] @ drop (ti_pos ?t) ?g\<rparr>
              else m)\<lparr>started := True\<rparr>"
  from al have foc: "ti_focus ?t" and pos: "ti_pos ?t = length (ti_value ?t)"
    by (simp_all add: aligned_unfold)
  note upd = textinput_Update_end(3) [OF foc pos, of rs]
  have "length (ti_value (textinput_Update (KeyRunes rs) (textInput ?m1))) \<le> length (ghostText ?m1)"
    using p fits one pos by (auto simp: upd)
  from keyTail_total [OF this] run p show ?thesis
    by (simp add: Update_KeyRunes Let_def)
qed



section \<open>Rounding and the clock\<close>

lemma pow2_pos: "0 < pow2 e"
  by (simp add: pow2_def)

lemma round_half_even_nonneg: "0 \<le> y \<Longrightarrow> 0 \<le> round_half_even y"
  by (auto simp: round_half_even_def Let_def)

lemma fl_nonneg: "0 \<le> x \<Longrightarrow> 0 \<le> fl p x"
proof -
  assume x: "0 \<le> x"
  show ?thesis
  proof (cases "x = 0")
    case True
    then show ?thesis by (simp add: fl_def)
  next
    case False
    with x have pos: "0 < x" by simp
    have "0 \<le> x / pow2 (binexp p x)"
      using pos pow2_pos [of "binexp p x"] by simp
    from round_half_even_nonneg [OF this] pow2_pos [of "binexp p x"]
    have "0 \<le> round_pos p x"
      by (simp add: round_pos_def Let_def)
    with pos show ?thesis by (simp add: fl_def)
  qed
qed

lemma f64_nonneg: "0 \<le> x \<Longrightarrow> 0 \<le> f64 x"
  by (simp add: f64_def fl_nonneg)

lemma go_int_nonneg: "0 \<le> x \<Longrightarrow> 0 \<le> go_int x"
  by (simp add: go_int_def)

lemma threshold_bounds: "0 < f64 (1 / 10) \<and> f64 (1 / 10) \<le> 1"
  by code_simp

lemma whole_seconds_cases:
  assumes "k \<in> {0..10::int}"
  obtains "k = 0" | "k = 1" | "k = 2" | "k = 3" | "k = 4" | "k = 5" | "k = 6" | "k = 7" | "k = 8"
    | "k = 9" | "k = 10"
proof -
  from assms have "k = 0 \<or> k = 1 \<or> k = 2 \<or> k = 3 \<or> k = 4 \<or> k = 5 \<or> k = 6 \<or> k = 7 \<or>
      k = 8 \<or> k = 9 \<or> k = 10"
    by (simp only: atLeastAtMost_iff) arith
  with that show thesis by blast
qed

lemma elapsed_whole:
  assumes "k \<in> {0..10::int}"
  shows "f64 (Seconds DURATION - Seconds (k * Second)) = of_int (10 - k)"
  using assms
proof (cases k rule: whole_seconds_cases)
  case 1
  show ?thesis unfolding 1 by code_simp
next
  case 2
  show ?thesis unfolding 2 by code_simp
next
  case 3
  show ?thesis unfolding 3 by code_simp
next
  case 4
  show ?thesis unfolding 4 by code_simp
next
  case 5
  show ?thesis unfolding 5 by code_simp
next
  case 6
  show ?thesis unfolding 6 by code_simp
next
  case 7
  show ?thesis unfolding 7 by code_simp
next
  case 8
  show ?thesis unfolding 8 by code_simp
next
  case 9
  show ?thesis unfolding 9 by code_simp
next
  case 10
  show ?thesis unfolding 10 by code_simp
next
  case 11
  show ?thesis unfolding 11 by code_simp
qed

lemma Update_key_frame:
  assumes "Update m k = Inr m'" and "k \<noteq> TickMsg"
  shows "timer m' = timer m" and "wordsPerMinute m' = wordsPerMinute m"
  using Update_key_step [OF assms]
  by (auto dest: keyTail_frame(3,5))

lemma clock_inv_elapsed:
  assumes "clock_inv m"
  shows "elapsed m = of_int (DURATION - Timeout (timer m)) / of_int Second"
    and "elapsed m < f64 (1 / 10) \<longleftrightarrow> Timeout (timer m) = DURATION"
proof -
  from assms obtain k where k: "k \<in> {0..10}" and t: "Timeout (timer m) = k * Second"
    by (auto simp: clock_inv_def)
  from elapsed_whole [OF k] t have e: "elapsed m = of_int (10 - k)"
    by (simp add: elapsed_def)
  with t show "elapsed m = of_int (DURATION - Timeout (timer m)) / of_int Second"
    by (simp add: DURATION_def Second_def field_simps)
  have "elapsed m < f64 (1 / 10) \<longleftrightarrow> k = 10"
  proof
    assume "elapsed m < f64 (1 / 10)"
    with threshold_bounds e have "(of_int (10 - k) :: rat) < 1" by simp
    then have "10 - k < 1" by (simp only: of_int_less_1_iff)
    with k show "k = 10" by simp
  next
    assume "k = 10"
    with e threshold_bounds show "elapsed m < f64 (1 / 10)" by simp
  qed
  with t show "elapsed m < f64 (1 / 10) \<longleftrightarrow> Timeout (timer m) = DURATION"
    by (simp add: DURATION_def Second_def)
qed

lemma Update_TickMsg_clock_inv:
  assumes inv: "clock_inv m" and ok: "Update m TickMsg = Inr m'"
  shows "clock_inv m'"
proof (cases "Timedout (timer m)")
  case True
  with ok inv show ?thesis by (simp add: Update_TickMsg)
next
  case False
  from inv obtain k where k: "k \<in> {0..10}" and t: "Timeout (timer m) = k * Second"
    and i: "Interval (timer m) = Second" and r: "running (timer m)"
    and w: "0 \<le> wordsPerMinute m"
    by (auto simp: clock_inv_def)
  from False t have k1: "1 \<le> k" by (simp add: Timedout_def Second_def)
  let ?wpm = "go_int (f64 (f64 (f64 (of_nat (length (Value (textInput m)))) / 5) * f64 (60 / elapsed m)))"
  from ok False have m': "m' = (if elapsed m \<ge> f64 (1 / 10) then m\<lparr>wordsPerMinute := ?wpm\<rparr> else m)
      \<lparr>timer := timer_Update (timer m)\<rparr>"
    by (simp add: Update_TickMsg)
  have tu: "timer_Update (timer m) = (timer m)\<lparr>Timeout := (k - 1) * Second\<rparr>"
    using False r t i by (simp add: timer_Update_def Running_def algebra_simps)
  have nonneg: "elapsed m \<ge> f64 (1 / 10) \<Longrightarrow> 0 \<le> ?wpm"
  proof -
    assume "elapsed m \<ge> f64 (1 / 10)"
    with threshold_bounds have "0 < elapsed m" by simp
    then have "0 \<le> f64 (60 / elapsed m)" by (simp add: f64_nonneg)
    moreover have "0 \<le> f64 (f64 (of_nat (length (Value (textInput m)))) / 5)"
      by (simp add: f64_nonneg)
    ultimately show "0 \<le> ?wpm" by (simp add: go_int_nonneg f64_nonneg)
  qed
  from k k1 have k': "k - 1 \<in> {0..10}" and ne: "(k - 1) * Second \<noteq> DURATION"
    by (simp_all add: DURATION_def Second_def)
  from k' ne i r w nonneg show ?thesis
    unfolding m' tu clock_inv_def by auto
qed

lemma Update_clock_inv:
  assumes "clock_inv m" and "Update m k = Inr m'"
  shows "clock_inv m'"
proof (cases "k = TickMsg")
  case True
  with assms Update_TickMsg_clock_inv show ?thesis by blast
next
  case False
  from Update_key_frame [OF assms(2) False] assms(1) show ?thesis
    by (simp add: clock_inv_def)
qed

lemma run_clock_inv: "clock_inv m \<Longrightarrow> run m ks = Inr m' \<Longrightarrow> clock_inv m'"
proof (induction ks arbitrary: m)
  case Nil
  then show ?case by simp
next
  case (Cons k ks)
  from Cons.prems(2) obtain m1 where s1: "Update m k = Inr m1" and s2: "run m1 ks = Inr m'"
    by (auto split: sum.splits)
  from Cons.IH [OF Update_clock_inv [OF Cons.prems(1) s1] s2] show ?case .
qed

lemma initialModel_clock_inv: "clock_inv (initialModel text)"
  by (auto simp: clock_inv_def initialModel_def timer_New_def DURATION_def Second_def)

lemma reachable_clock_inv: "run (initialModel text) ks = Inr m \<Longrightarrow> clock_inv m"
  using run_clock_inv [OF initialModel_clock_inv] .

section \<open>The selection loop\<close>

lemma strings_Split_nonempty: "strings_Split s \<noteq> []"
  by (induction s) (auto split: list.splits)

lemma getWords_loop_step:
  assumes "2 \<le> length words"
  shows "getWords_loop (Suc c) j rnd words sel =
           getWords_loop c (Suc j) rnd words (sel @ [words ! (rnd j mod (length words - 1))])"
proof -
  let ?n = "length words - 1"
  from assms have n: "0 < ?n" by simp
  then have "rnd j mod ?n < ?n" by simp
  then have lt: "rnd j mod ?n < length words" by arith
  from assms have r: "rand_Intn (rnd j) (int (length words) - 1) = Inr (int (rnd j mod ?n))"
    by (simp add: rand_Intn_def zmod_int of_nat_diff)
  have i: "index_at words (int (rnd j mod ?n)) = Inr (words ! (rnd j mod ?n))"
    using lt by (simp add: index_at_def)
  from r i show ?thesis by simp
qed

lemma getWords_loop_result:
  assumes "2 \<le> length words"
  shows "getWords_loop c j rnd words sel =
           Inr (sel @ map (\<lambda>i. words ! (rnd i mod (length words - 1))) [j..<j + c])"
proof (induction c arbitrary: j sel)
  case 0
  then show ?case by simp
next
  case (Suc c)
  have u: "[j..<j + Suc c] = j # [Suc j..<Suc j + c]"
    by (simp add: upt_conv_Cons)
  show ?case
    unfolding getWords_loop_step [OF assms] Suc.IH u by simp
qed

lemma getWords_loop_single:
  assumes "length words \<le> 1"
  shows "getWords_loop (Suc c) j rnd words sel = Inl InvalidArgumentToIntn"
  using assms by (simp add: rand_Intn_def)

lemma getWords_result:
  assumes "2 \<le> length (strings_Split contents)"
  shows "getWords count (Inr contents) rnd =
           Inr (Inr (map (\<lambda>j. strings_Split contents ! (rnd j mod (length (strings_Split contents) - 1)))
                      [0..<nat count]))"
  using getWords_loop_result [OF assms, of "nat count" 0 rnd "[]"]
  by (simp add: getWords_def Let_def)

lemma strings_Join_empty_words: "strings_Join (replicate (Suc n) []) [c] = replicate n c"
  by (induction n) simp_all

section \<open>Error positions\<close>

text \<open>
  C9.  The marking pass is idempotent and append-only.  Running the pass again
  on the same typed text and ghost text, from the set it produced, yields that
  set again; and whatever messages the session handles afterwards, every index
  that is in \<open>errorPositions\<close> stays in it (nothing ever removes an entry, also
  not retyping the position correctly).
\<close>

theorem errorPositions_idempotent_append_only:
  "(markErrors 0 input ghost ep = Inr ep' \<longrightarrow> markErrors 0 input ghost ep' = Inr ep') \<and>
   (run m ks = Inr m' \<longrightarrow> errorPositions m \<subseteq> errorPositions m')"
  using markErrors_idem run_errorPositions_mono by blast

text \<open>Typing \<open>cx\<close> on \<open>cat dog\<close> marks index 1; after a backspace and the correct
  \<open>a\<close> the index is still marked.\<close>

theorem errorPositions_idempotent_append_only_witness:
  "markErrors 0 ''cxt'' ''cat dog'' {} = Inr {1} \<and>
   markErrors 0 ''cxt'' ''cat dog'' {1} = Inr {1} \<and>
   run \<lparr>textInput = \<lparr>ti_value = ''cx'', ti_pos = 2, ti_focus = True\<rparr>, ghostText = ''cat dog'',
        wordsPerMinute = 0, timer = timer_New DURATION, started = True, accuracy = 50,
        errorPositions = {1}, maxTyped = 2\<rparr> [KeyBackspace, KeyRunes ''a''] =
     Inr \<lparr>textInput = \<lparr>ti_value = ''ca'', ti_pos = 2, ti_focus = True\<rparr>, ghostText = ''cat dog'',
          wordsPerMinute = 0, timer = timer_New DURATION, started = True, accuracy = 50,
          errorPositions = {1}, maxTyped = 2\<rparr> \<and>
   errorPositions \<lparr>textInput = \<lparr>ti_value = ''cx'', ti_pos = 2, ti_focus = True\<rparr>,
        ghostText = ''cat dog'', wordsPerMinute = 0, timer = timer_New DURATION, started = True,
        accuracy = 50, errorPositions = {1}, maxTyped = 2\<rparr>
     \<subseteq> errorPositions \<lparr>textInput = \<lparr>ti_value = ''ca'', ti_pos = 2, ti_focus = True\<rparr>,
        ghostText = ''cat dog'', wordsPerMinute = 0, timer = timer_New DURATION, started = True,
        accuracy = 50, errorPositions = {1}, maxTyped = 2\<rparr>"
proof -
  have h1: "markErrors 0 ''cxt'' ''cat dog'' {} = Inr {1}"
    by code_simp
  have h2: "run \<lparr>textInput = \<lparr>ti_value = ''cx'', ti_pos = 2, ti_focus = True\<rparr>,
        ghostText = ''cat dog'', wordsPerMinute = 0, timer = timer_New DURATION, started = True,
        accuracy = 50, errorPositions = {1}, maxTyped = 2\<rparr> [KeyBackspace, KeyRunes ''a''] =
     Inr \<lparr>textInput = \<lparr>ti_value = ''ca'', ti_pos = 2, ti_focus = True\<rparr>, ghostText = ''cat dog'',
          wordsPerMinute = 0, timer = timer_New DURATION, started = True, accuracy = 50,
          errorPositions = {1}, maxTyped = 2\<rparr>"
    by code_simp
  from errorPositions_idempotent_append_only
    [of "''cxt''" "''cat dog''" "{}" "{1}"
        "\<lparr>textInput = \<lparr>ti_value = ''cx'', ti_pos = 2, ti_focus = True\<rparr>,
          ghostText = ''cat dog'', wordsPerMinute = 0, timer = timer_New DURATION, started = True,
          accuracy = 50, errorPositions = {1}, maxTyped = 2\<rparr>"
        "[KeyBackspace, KeyRunes ''a'']"
        "\<lparr>textInput = \<lparr>ti_value = ''ca'', ti_pos = 2, ti_focus = True\<rparr>,
          ghostText = ''cat dog'', wordsPerMinute = 0, timer = timer_New DURATION, started = True,
          accuracy = 50, errorPositions = {1}, maxTyped = 2\<rparr>"]
    h1 h2
  show ?thesis by blast
qed

section \<open>Word skip\<close>

text \<open>
  C3, as stated, fails: with the cursor at 0 on the ghost text \<open>cat dog\<close> the next
  delimiter is at offset 3, and a Space key leaves four spaces in the typed text
  and the cursor at 4, not three spaces and the cursor at 3.
\<close>

theorem space_at_start_counterexample:
  "strings_Index (drop 0 ''cat dog'') (CHR '' '') = 3 \<and>
   Update (initialModel ''cat dog'') KeySpace =
     Inr ((initialModel ''cat dog'')\<lparr>textInput := \<lparr>ti_value = ''    '', ti_pos = 4, ti_focus = True\<rparr>\<rparr>) \<and>
   Value (textInput (projr (Update (initialModel ''cat dog'') KeySpace))) \<noteq> ''   '' \<and>
   Position (textInput (projr (Update (initialModel ''cat dog'') KeySpace))) \<noteq> 3"
  by code_simp

text \<open>
  C3, amended.  Take a state of a session that has not timed out, with the next
  space of the ghost text at offset \<open>k\<close> from the cursor, and such that the
  cursor is at the end of the typed text, or the session has not started, or
  the typed text and \<open>k + 1\<close> more characters are not longer than the ghost text
  (the first implies the last).  Then a Space key is handled without a panic
  and appends \<open>k + 1\<close> spaces to the typed text: the \<open>k\<close> spaces of the bulk
  insert and the typed space itself, which the text input inserts.  The cursor
  is then at the end of the typed text, and the ghost text is unchanged.  (The
  input of the program always has the focus.  In the other states, reached
  with the cursor keys, the accuracy pass reads beyond the ghost text.)
\<close>

theorem space_appends_offset_plus_one:
  assumes "ti_focus (textInput m)"
    and "\<not> Timedout (timer m)"
    and "strings_Index (drop (nat (Position (textInput m))) (ghostText m)) (CHR '' '') = int k"
    and "int (length (Value (textInput m))) = Position (textInput m) \<or> \<not> started m \<or>
         length (Value (textInput m)) + k < length (ghostText m)"
  shows "\<exists>m'. Update m KeySpace = Inr m' \<and>
           Value (textInput m') = Value (textInput m) @ replicate k (CHR '' '') @ [CHR '' ''] \<and>
           Position (textInput m') = int (length (Value (textInput m'))) \<and>
           ghostText m' = ghostText m"
proof -
  from assms(3) have idx: "strings_Index (drop (ti_pos (textInput m)) (ghostText m)) (CHR '' '') = int k"
    by (simp add: Position_def)
  from strings_Index_found [OF idx] have "ti_pos (textInput m) + k < length (ghostText m)"
    by auto
  with assms(4) have room: "\<not> started m \<or> length (ti_value (textInput m)) + k < length (ghostText m)"
    by (auto simp: Value_def Position_def)
  from Update_KeySpace_result [OF assms(1,2) idx room]
  show ?thesis
    by (auto simp: Value_def Position_def replicate_append_same)
qed

text \<open>After \<open>c\<close> on \<open>cat dog\<close>, cursor at the end: the Space key appends three
  spaces.  After \<open>a\<close>, \<open>b\<close> and Home on \<open>ab cd ef\<close>, cursor at 0: it appends three
  spaces as well and moves the cursor to the end.\<close>

theorem space_appends_offset_plus_one_witness:
  "\<not> Timedout (timer_New DURATION) \<and>
   strings_Index (drop (nat 1) ''cat dog'') (CHR '' '') = int 2 \<and>
   (\<exists>m'. Update \<lparr>textInput = \<lparr>ti_value = ''c'', ti_pos = 1, ti_focus = True\<rparr>,
              ghostText = ''cat dog'', wordsPerMinute = 0, timer = timer_New DURATION,
              started = True, accuracy = 100, errorPositions = {}, maxTyped = 1\<rparr> KeySpace = Inr m' \<and>
         Value (textInput m') = ''c   '' \<and> Position (textInput m') = 4 \<and>
         ghostText m' = ''cat dog'') \<and>
   strings_Index (drop (nat 0) ''ab cd ef'') (CHR '' '') = int 2 \<and>
   length ''ab'' + 2 < length ''ab cd ef'' \<and>
   (\<exists>m'. Update \<lparr>textInput = \<lparr>ti_value = ''ab'', ti_pos = 0, ti_focus = True\<rparr>,
              ghostText = ''ab cd ef'', wordsPerMinute = 0, timer = timer_New DURATION,
              started = True, accuracy = 100, errorPositions = {}, maxTyped = 2\<rparr> KeySpace = Inr m' \<and>
         Value (textInput m') = ''ab   '' \<and> Position (textInput m') = 5 \<and>
         ghostText m' = ''ab cd ef'')"
proof -
  let ?m = "\<lparr>textInput = \<lparr>ti_value = ''c'', ti_pos = 1, ti_focus = True\<rparr>, ghostText = ''cat dog'',
          wordsPerMinute = 0, timer = timer_New DURATION, started = True, accuracy = 100,
          errorPositions = {}, maxTyped = 1\<rparr>"
  let ?n = "\<lparr>textInput = \<lparr>ti_value = ''ab'', ti_pos = 0, ti_focus = True\<rparr>, ghostText = ''ab cd ef'',
          wordsPerMinute = 0, timer = timer_New DURATION, started = True, accuracy = 100,
          errorPositions = {}, maxTyped = 2\<rparr>"
  have t: "\<not> Timedout (timer_New DURATION)" by code_simp
  have f1: "ti_focus (textInput ?m)" and f2: "ti_focus (textInput ?n)" by simp_all
  have t1: "\<not> Timedout (timer ?m)" and t2: "\<not> Timedout (timer ?n)" using t by simp_all
  have i1: "strings_Index (drop (nat (Position (textInput ?m))) (ghostText ?m)) (CHR '' '') = int 2"
    by code_simp
  have i2: "strings_Index (drop (nat (Position (textInput ?n))) (ghostText ?n)) (CHR '' '') = int 2"
    by code_simp
  have r1: "int (length (Value (textInput ?m))) = Position (textInput ?m) \<or> \<not> started ?m \<or>
      length (Value (textInput ?m)) + 2 < length (ghostText ?m)"
    by (simp add: Value_def Position_def)
  have r2: "int (length (Value (textInput ?n))) = Position (textInput ?n) \<or> \<not> started ?n \<or>
      length (Value (textInput ?n)) + 2 < length (ghostText ?n)"
    by (simp add: Value_def Position_def)
  from space_appends_offset_plus_one [OF f1 t1 i1 r1]
  have a: "\<exists>m'. Update ?m KeySpace = Inr m' \<and> Value (textInput m') = ''c   '' \<and>
      Position (textInput m') = 4 \<and> ghostText m' = ''cat dog''"
    by (auto simp: Value_def numeral_2_eq_2)
  from space_appends_offset_plus_one [OF f2 t2 i2 r2]
  have b: "\<exists>m'. Update ?n KeySpace = Inr m' \<and> Value (textInput m') = ''ab   '' \<and>
      Position (textInput m') = 5 \<and> ghostText m' = ''ab cd ef''"
    by (auto simp: Value_def numeral_2_eq_2)
  from i1 have i1': "strings_Index (drop (nat 1) ''cat dog'') (CHR '' '') = int 2"
    by (simp add: Position_def)
  from i2 have i2': "strings_Index (drop (nat 0) ''ab cd ef'') (CHR '' '') = int 2"
    by (simp add: Position_def)
  have l: "length ''ab'' + 2 < length ''ab cd ef''" by simp
  from t i1' a i2' l b show ?thesis by blast
qed

section \<open>Cursor and ghost text\<close>




text \<open>
  C10.  Elongation and backspace merge are inverse on the ghost text.  In a
  session that has not timed out, with the cursor \<open>p\<close> on a space of the ghost
  text, a character event is handled and inserts one space at \<open>p\<close>, leaving
  the cursor at \<open>p + 1\<close>; the backspace that follows is handled as well and
  removes one of the two adjacent spaces, so that ghost text and text input are
  again what they were.
\<close>

theorem elongation_backspace_roundtrip:
  assumes al: "aligned m" and run: "\<not> Timedout (timer m)"
    and p: "ti_pos (textInput m) = p" "p < length (ghostText m)"
    and sp: "ghostText m ! p = CHR '' ''"
  shows "\<exists>m1 m2. Update m (KeyRunes [c]) = Inr m1 \<and>
           ghostText m1 = take p (ghostText m) @ [CHR '' ''] @ drop p (ghostText m) \<and>
           Position (textInput m1) = int p + 1 \<and>
           Update m1 KeyBackspace = Inr m2 \<and>
           ghostText m2 = ghostText m \<and> textInput m2 = textInput m"
proof -
  let ?t = "textInput m"
  let ?g = "ghostText m"
  let ?g1 = "take p ?g @ [CHR '' ''] @ drop p ?g"
  from al have foc: "ti_focus ?t" and pos: "ti_pos ?t = length (ti_value ?t)"
    by (simp_all add: aligned_unfold)
  from Update_KeyRunes_total [OF al run, of "[c]"] p sp
  obtain m1 where s1: "Update m (KeyRunes [c]) = Inr m1" by auto
  note r1 = Update_KeyRunes_result [OF al run s1]
  from r1(2) p sp have g1: "ghostText m1 = ?g1" by simp
  from r1(1) p pos have t1: "textInput m1 = ?t\<lparr>ti_value := ti_value ?t @ [c], ti_pos := Suc p\<rparr>"
    by simp
  have len1: "length ?g1 = Suc (length ?g)" using p(2) by simp
  have at_p: "?g1 ! p = CHR '' ''" using p(2) by (simp add: nth_append)
  have at_Sp: "?g1 ! Suc p = CHR '' ''" using p(2) sp by (simp add: nth_append)
  have merged: "take (Suc p - 1) ?g1 @ drop (Suc p) ?g1 = ?g" using p(2) by simp
  have del: "textinput_Update KeyBackspace (textInput m1) = ?t"
    using foc pos p(1) by (simp add: t1 textinput_Update_end(1))
  have step2: "Update m1 KeyBackspace = keyTail KeyBackspace (m1\<lparr>ghostText := ?g\<rparr>)"
    using p(2) at_p at_Sp merged by (simp add: Update_KeyBackspace Let_def g1 t1)
  from al have "length (ti_value ?t) \<le> length ?g" by (simp add: aligned_unfold)
  with keyTail_total [of KeyBackspace "m1\<lparr>ghostText := ?g\<rparr>"] del
  obtain m2 where s2: "keyTail KeyBackspace (m1\<lparr>ghostText := ?g\<rparr>) = Inr m2" by auto
  from keyTail_frame(1,2) [OF s2] del have "textInput m2 = ?t" and "ghostText m2 = ?g"
    by simp_all
  with s1 g1 t1 step2 s2 show ?thesis by (simp add: Position_def)
qed

theorem elongation_backspace_roundtrip_witness:
  "aligned ((initialModel ''a b'')\<lparr>textInput := \<lparr>ti_value = ''a'', ti_pos = 1, ti_focus = True\<rparr>\<rparr>) \<and>
   \<not> Timedout (timer (initialModel ''a b'')) \<and> (1::nat) < length ''a b'' \<and> ''a b'' ! 1 = CHR '' '' \<and>
   (\<exists>m1 m2.
      Update ((initialModel ''a b'')\<lparr>textInput := \<lparr>ti_value = ''a'', ti_pos = 1, ti_focus = True\<rparr>\<rparr>)
        (KeyRunes ''x'') = Inr m1 \<and>
      ghostText m1 = ''a  b'' \<and> Position (textInput m1) = 2 \<and>
      Update m1 KeyBackspace = Inr m2 \<and> ghostText m2 = ''a b'' \<and>
      textInput m2 = \<lparr>ti_value = ''a'', ti_pos = 1, ti_focus = True\<rparr>)"
proof -
  let ?m = "(initialModel ''a b'')\<lparr>textInput := \<lparr>ti_value = ''a'', ti_pos = 1, ti_focus = True\<rparr>\<rparr>"
  have h1: "aligned ?m" by code_simp
  have h2: "\<not> Timedout (timer ?m)" by code_simp
  have h3: "ti_pos (textInput ?m) = 1" by simp
  have h4: "1 < length (ghostText ?m)" by (simp add: initialModel_def)
  have h5: "ghostText ?m ! 1 = CHR '' ''" by (simp add: initialModel_def)
  have g: "ghostText ?m = ''a b''" and t: "timer ?m = timer (initialModel ''a b'')"
    by (simp_all add: initialModel_def)
  from elongation_backspace_roundtrip [OF h1 h2 h3 h4 h5, of "CHR ''x''"]
  have "\<exists>m1 m2.
      Update ?m (KeyRunes ''x'') = Inr m1 \<and>
      ghostText m1 = ''a  b'' \<and> Position (textInput m1) = 2 \<and>
      Update m1 KeyBackspace = Inr m2 \<and> ghostText m2 = ''a b'' \<and>
      textInput m2 = \<lparr>ti_value = ''a'', ti_pos = 1, ti_focus = True\<rparr>"
    by (simp add: initialModel_def)
  moreover from h2 have "\<not> Timedout (timer (initialModel ''a b''))" by (simp add: t)
  moreover have "(1::nat) < length ''a b''" and "''a b'' ! 1 = CHR '' ''" by simp_all
  ultimately show ?thesis using h1 by blast
qed

section \<open>Events after the timeout\<close>

text \<open>
  C1.  On the ghost text \<open>a b\<close> the user types \<open>a\<close> and \<open>x\<close> (the \<open>x\<close> on the
  delimiter, which elongates the ghost text), and ten ticks expire the clock.
  In the timed-out state the Space key and a character key change nothing, but
  the Backspace key still removes the last typed character and merges the two
  spaces of the ghost text.
\<close>

theorem backspace_after_timeout_mutates:
  "run (initialModel ''a b'') ([KeyRunes ''a'', KeyRunes ''x''] @ replicate 10 TickMsg) =
     Inr \<lparr>textInput = \<lparr>ti_value = ''ax'', ti_pos = 2, ti_focus = True\<rparr>, ghostText = ''a  b'',
          wordsPerMinute = 2, timer = \<lparr>Timeout = 0, Interval = Second, running = True\<rparr>,
          started = True, accuracy = 50, errorPositions = {1}, maxTyped = 2\<rparr> \<and>
   Timedout \<lparr>Timeout = 0, Interval = Second, running = True\<rparr> \<and>
   Update \<lparr>textInput = \<lparr>ti_value = ''ax'', ti_pos = 2, ti_focus = True\<rparr>, ghostText = ''a  b'',
          wordsPerMinute = 2, timer = \<lparr>Timeout = 0, Interval = Second, running = True\<rparr>,
          started = True, accuracy = 50, errorPositions = {1}, maxTyped = 2\<rparr> KeySpace =
     Inr \<lparr>textInput = \<lparr>ti_value = ''ax'', ti_pos = 2, ti_focus = True\<rparr>, ghostText = ''a  b'',
          wordsPerMinute = 2, timer = \<lparr>Timeout = 0, Interval = Second, running = True\<rparr>,
          started = True, accuracy = 50, errorPositions = {1}, maxTyped = 2\<rparr> \<and>
   Update \<lparr>textInput = \<lparr>ti_value = ''ax'', ti_pos = 2, ti_focus = True\<rparr>, ghostText = ''a  b'',
          wordsPerMinute = 2, timer = \<lparr>Timeout = 0, Interval = Second, running = True\<rparr>,
          started = True, accuracy = 50, errorPositions = {1}, maxTyped = 2\<rparr> (KeyRunes ''y'') =
     Inr \<lparr>textInput = \<lparr>ti_value = ''ax'', ti_pos = 2, ti_focus = True\<rparr>, ghostText = ''a  b'',
          wordsPerMinute = 2, timer = \<lparr>Timeout = 0, Interval = Second, running = True\<rparr>,
          started = True, accuracy = 50, errorPositions = {1}, maxTyped = 2\<rparr> \<and>
   Update \<lparr>textInput = \<lparr>ti_value = ''ax'', ti_pos = 2, ti_focus = True\<rparr>, ghostText = ''a  b'',
          wordsPerMinute = 2, timer = \<lparr>Timeout = 0, Interval = Second, running = True\<rparr>,
          started = True, accuracy = 50, errorPositions = {1}, maxTyped = 2\<rparr> KeyBackspace =
     Inr \<lparr>textInput = \<lparr>ti_value = ''a'', ti_pos = 1, ti_focus = True\<rparr>, ghostText = ''a b'',
          wordsPerMinute = 2, timer = \<lparr>Timeout = 0, Interval = Second, running = True\<rparr>,
          started = True, accuracy = 50, errorPositions = {1}, maxTyped = 2\<rparr>"
  by code_simp

section \<open>Handlers at the edges of the ghost text\<close>

text \<open>
  C2.  The handlers are not total.  On \<open>cat dog\<close> the first Space key moves the
  cursor to 4 and the second finds no space after the cursor: \<open>strings.Index\<close>
  returns \<open>-1\<close> and \<open>strings.Repeat\<close> panics.  On the ghost text \<open>a\<close>, after
  typing \<open>a\<close> the cursor is at the end of the ghost text and the next character
  key panics on \<open>m.ghostText[cursorPos]\<close>.  On a ghost text that starts with a
  space, Backspace at cursor 0 panics on \<open>m.ghostText[cursorPos-1]\<close>.
\<close>

theorem handlers_panic_at_edges:
  "run (initialModel ''cat dog'') [KeySpace, KeySpace] = Inl NegativeRepeatCount \<and>
   run (initialModel ''a'') [KeyRunes ''a'', KeyRunes ''b''] = Inl IndexOutOfRange \<and>
   Update (initialModel '' a'') KeyBackspace = Inl IndexOutOfRange"
  by code_simp

section \<open>Accuracy\<close>

text \<open>
  C4.  After a backspace event that a running session handles, or a character
  event that a session handles before the timeout (the first one starts the
  session), with \<open>n\<close> the length of the typed text after the event: if \<open>n\<close> exceeds the
  previous \<open>maxTyped\<close>, then \<open>maxTyped\<close> becomes \<open>n\<close> and the accuracy becomes
  \<open>((n - |errorPositions|) / n) * 100\<close>, computed in \<open>float32\<close> from the error
  positions after the marking pass; otherwise \<open>maxTyped\<close> and the accuracy are
  unchanged.
\<close>

theorem accuracy_only_on_new_ground:
  assumes "(k = KeyBackspace \<and> started m) \<or> k = KeyRunes rs"
    and "\<not> Timedout (timer m)"
    and "Update m k = Inr m'"
  shows "if length (Value (textInput m')) > maxTyped m
         then maxTyped m' = length (Value (textInput m')) \<and>
              accuracy m' =
                f32 (f32 (f32 (of_int (int (length (Value (textInput m'))) - int (card (errorPositions m')))) /
                          f32 (of_nat (length (Value (textInput m'))))) * 100)
         else maxTyped m' = maxTyped m \<and> accuracy m' = accuracy m"
proof -
  from assms obtain m1 where kt: "keyTail k m1 = Inr m'"
    and same: "maxTyped m1 = maxTyped m" "accuracy m1 = accuracy m" "started m1"
    by (auto simp: Update_KeyBackspace Update_KeyRunes Let_def split: if_splits)
  let ?m2 = "m1\<lparr>textInput := textinput_Update k (textInput m1)\<rparr>"
  from keyTail_cases [OF kt] same(3) have ca: "calculateAccuracy ?m2 = Inr m'" by simp
  from calculateAccuracy_frame(1) [OF ca] have "textInput m' = textInput ?m2" .
  with calculateAccuracy_gate [OF ca] same(1,2) show ?thesis by simp
qed

text \<open>Typing \<open>x\<close> after \<open>c\<close> on \<open>cat dog\<close> is new ground: \<open>maxTyped\<close> becomes 2 and
  the accuracy 50.  The backspace that follows is not: both stay.\<close>

theorem accuracy_only_on_new_ground_witness:
  "started \<lparr>textInput = \<lparr>ti_value = ''c'', ti_pos = 1, ti_focus = True\<rparr>, ghostText = ''cat dog'',
          wordsPerMinute = 0, timer = timer_New DURATION, started = True, accuracy = 100,
          errorPositions = {}, maxTyped = 1\<rparr> \<and>
   \<not> Timedout (timer_New DURATION) \<and>
   Update \<lparr>textInput = \<lparr>ti_value = ''c'', ti_pos = 1, ti_focus = True\<rparr>, ghostText = ''cat dog'',
          wordsPerMinute = 0, timer = timer_New DURATION, started = True, accuracy = 100,
          errorPositions = {}, maxTyped = 1\<rparr> (KeyRunes ''x'') =
     Inr \<lparr>textInput = \<lparr>ti_value = ''cx'', ti_pos = 2, ti_focus = True\<rparr>, ghostText = ''cat dog'',
          wordsPerMinute = 0, timer = timer_New DURATION, started = True, accuracy = 50,
          errorPositions = {1}, maxTyped = 2\<rparr> \<and>
   (2::nat) > 1 \<and> f32 (f32 (f32 (of_int (int 2 - int (card {1::nat}))) / f32 (of_nat 2)) * 100) = 50 \<and>
   Update \<lparr>textInput = \<lparr>ti_value = ''cx'', ti_pos = 2, ti_focus = True\<rparr>, ghostText = ''cat dog'',
          wordsPerMinute = 0, timer = timer_New DURATION, started = True, accuracy = 50,
          errorPositions = {1}, maxTyped = 2\<rparr> KeyBackspace =
     Inr \<lparr>textInput = \<lparr>ti_value = ''c'', ti_pos = 1, ti_focus = True\<rparr>, ghostText = ''cat dog'',
          wordsPerMinute = 0, timer = timer_New DURATION, started = True, accuracy = 50,
          errorPositions = {1}, maxTyped = 2\<rparr> \<and>
   \<not> (1::nat) > 2"
proof -
  let ?m0 = "\<lparr>textInput = \<lparr>ti_value = ''c'', ti_pos = 1, ti_focus = True\<rparr>, ghostText = ''cat dog'',
          wordsPerMinute = 0, timer = timer_New DURATION, started = True, accuracy = 100,
          errorPositions = {}, maxTyped = 1\<rparr>"
  let ?m1 = "\<lparr>textInput = \<lparr>ti_value = ''cx'', ti_pos = 2, ti_focus = True\<rparr>, ghostText = ''cat dog'',
          wordsPerMinute = 0, timer = timer_New DURATION, started = True, accuracy = 50,
          errorPositions = {1}, maxTyped = 2\<rparr>"
  let ?m2 = "\<lparr>textInput = \<lparr>ti_value = ''c'', ti_pos = 1, ti_focus = True\<rparr>, ghostText = ''cat dog'',
          wordsPerMinute = 0, timer = timer_New DURATION, started = True, accuracy = 50,
          errorPositions = {1}, maxTyped = 2\<rparr>"
  have t: "\<not> Timedout (timer_New DURATION)" by code_simp
  have s0: "started ?m0" and s1: "started ?m1" by simp_all
  have t0: "\<not> Timedout (timer ?m0)" and t1: "\<not> Timedout (timer ?m1)" using t by simp_all
  have u0: "Update ?m0 (KeyRunes ''x'') = Inr ?m1" by code_simp
  have u1: "Update ?m1 KeyBackspace = Inr ?m2" by code_simp
  have k0: "(KeyRunes ''x'' = KeyBackspace \<and> started ?m0) \<or> KeyRunes ''x'' = KeyRunes ''x''"
    by simp
  have k1: "(KeyBackspace = KeyBackspace \<and> started ?m1) \<or> KeyBackspace = KeyRunes []"
    by simp
  from accuracy_only_on_new_ground [OF k0 t0 u0]
  have a: "f32 (f32 (f32 (of_int (int 2 - int (card {1::nat}))) / f32 (of_nat 2)) * 100) = 50"
    by (simp add: Value_def)
  from accuracy_only_on_new_ground [OF k1 t1 u1]
  have b: "\<not> (1::nat) > 2"
    by (simp add: Value_def)
  from s0 t u0 a u1 b show ?thesis by simp
qed

section \<open>Words per minute\<close>

text \<open>
  C6, as stated, fails: after \<open>cat dog\<close> has been typed and seven ticks have
  passed, the eighth tick finds 7 characters and 7 seconds elapsed and sets the
  rate to 11, while \<open>floor((7 / 5) * (60 / 7))\<close> is 12: the \<open>float64\<close> product of the
  handler lies just below 12.
\<close>

theorem words_per_minute_below_floor_counterexample:
  "run (initialModel ''cat dog'')
     ([KeyRunes ''c'', KeyRunes ''a'', KeyRunes ''t'', KeySpace, KeyRunes ''d'', KeyRunes ''o'',
       KeyRunes ''g''] @ replicate 7 TickMsg) =
     Inr \<lparr>textInput = \<lparr>ti_value = ''cat dog'', ti_pos = 7, ti_focus = True\<rparr>,
          ghostText = ''cat dog'', wordsPerMinute = 14,
          timer = \<lparr>Timeout = 3 * Second, Interval = Second, running = True\<rparr>,
          started = True, accuracy = 100, errorPositions = {}, maxTyped = 7\<rparr> \<and>
   elapsed \<lparr>textInput = \<lparr>ti_value = ''cat dog'', ti_pos = 7, ti_focus = True\<rparr>,
          ghostText = ''cat dog'', wordsPerMinute = 14,
          timer = \<lparr>Timeout = 3 * Second, Interval = Second, running = True\<rparr>,
          started = True, accuracy = 100, errorPositions = {}, maxTyped = 7\<rparr> = 7 \<and>
   Update \<lparr>textInput = \<lparr>ti_value = ''cat dog'', ti_pos = 7, ti_focus = True\<rparr>,
          ghostText = ''cat dog'', wordsPerMinute = 14,
          timer = \<lparr>Timeout = 3 * Second, Interval = Second, running = True\<rparr>,
          started = True, accuracy = 100, errorPositions = {}, maxTyped = 7\<rparr> TickMsg =
     Inr \<lparr>textInput = \<lparr>ti_value = ''cat dog'', ti_pos = 7, ti_focus = True\<rparr>,
          ghostText = ''cat dog'', wordsPerMinute = 11,
          timer = \<lparr>Timeout = 2 * Second, Interval = Second, running = True\<rparr>,
          started = True, accuracy = 100, errorPositions = {}, maxTyped = 7\<rparr> \<and>
   \<lfloor>(of_nat (length ''cat dog'') / 5) * (60 / 7 :: rat)\<rfloor> = 12 \<and>
   (11::int) \<noteq> \<lfloor>(of_nat (length ''cat dog'') / 5) * (60 / 7 :: rat)\<rfloor>"
  by code_simp

text \<open>
  C6, amended.  In every state of a session a tick is handled, and the word
  rate after it is the integer part of \<open>(len(TypedInput) / 5) * (60 / elapsed)\<close> as
  the handler computes it in \<open>float64\<close> (the two quotients and the product are
  each rounded, so the result can be one below the floor of the exact value),
  if the clock has not timed out and the elapsed time is at least the
  threshold \<open>0.1\<close>; otherwise it is the rate before the tick.  While the elapsed
  time is below the threshold the rate is 0 before and after the tick, and the
  rate is never negative.  The elapsed time the handler computes is exactly
  the whole number of seconds taken off the clock so far.
\<close>

theorem words_per_minute_on_tick:
  assumes "run (initialModel text) ks = Inr m"
  shows "\<exists>m'. Update m TickMsg = Inr m' \<and>
           wordsPerMinute m' =
             (if \<not> Timedout (timer m) \<and> elapsed m \<ge> f64 (1 / 10)
              then go_int (f64 (f64 (f64 (of_nat (length (Value (textInput m)))) / 5) *
                                f64 (60 / elapsed m)))
              else wordsPerMinute m) \<and>
           (elapsed m < f64 (1 / 10) \<longrightarrow> wordsPerMinute m = 0 \<and> wordsPerMinute m' = 0) \<and>
           0 \<le> wordsPerMinute m \<and> 0 \<le> wordsPerMinute m' \<and>
           elapsed m = of_int (DURATION - Timeout (timer m)) / of_int Second"
proof -
  note inv = reachable_clock_inv [OF assms]
  obtain m' where m': "Update m TickMsg = Inr m'"
    by (cases "Timedout (timer m)") (auto simp: Update_TickMsg)
  from Update_TickMsg_clock_inv [OF inv m'] have inv': "clock_inv m'" .
  from m' have wpm: "wordsPerMinute m' =
             (if \<not> Timedout (timer m) \<and> elapsed m \<ge> f64 (1 / 10)
              then go_int (f64 (f64 (f64 (of_nat (length (Value (textInput m)))) / 5) *
                                f64 (60 / elapsed m)))
              else wordsPerMinute m)"
    by (auto simp: Update_TickMsg split: if_splits)
  have zero: "elapsed m < f64 (1 / 10) \<longrightarrow> wordsPerMinute m = 0 \<and> wordsPerMinute m' = 0"
  proof
    assume early: "elapsed m < f64 (1 / 10)"
    with clock_inv_elapsed(2) [OF inv] have "Timeout (timer m) = DURATION" by simp
    with inv have "wordsPerMinute m = 0" by (simp add: clock_inv_def)
    with wpm early show "wordsPerMinute m = 0 \<and> wordsPerMinute m' = 0" by simp
  qed
  from inv inv' have "0 \<le> wordsPerMinute m" and "0 \<le> wordsPerMinute m'"
    by (simp_all add: clock_inv_def)
  with m' wpm zero clock_inv_elapsed(1) [OF inv] show ?thesis by blast
qed

text \<open>One typed character and two ticks: the third tick finds 2 seconds elapsed
  and sets the rate to 6.  The first tick of a session finds no time elapsed and
  leaves the rate at 0.\<close>

theorem words_per_minute_on_tick_witness:
  "run (initialModel ''cat dog'') [KeyRunes ''c'', TickMsg, TickMsg] =
     Inr \<lparr>textInput = \<lparr>ti_value = ''c'', ti_pos = 1, ti_focus = True\<rparr>, ghostText = ''cat dog'',
          wordsPerMinute = 12, timer = \<lparr>Timeout = 8 * Second, Interval = Second, running = True\<rparr>,
          started = True, accuracy = 100, errorPositions = {}, maxTyped = 1\<rparr> \<and>
   (\<exists>m'. Update \<lparr>textInput = \<lparr>ti_value = ''c'', ti_pos = 1, ti_focus = True\<rparr>,
              ghostText = ''cat dog'', wordsPerMinute = 12,
              timer = \<lparr>Timeout = 8 * Second, Interval = Second, running = True\<rparr>,
              started = True, accuracy = 100, errorPositions = {}, maxTyped = 1\<rparr> TickMsg = Inr m' \<and>
         wordsPerMinute m' = 6 \<and> 0 \<le> wordsPerMinute m') \<and>
   run (initialModel ''cat dog'') [] = Inr (initialModel ''cat dog'') \<and>
   elapsed (initialModel ''cat dog'') < f64 (1 / 10) \<and>
   (\<exists>m'. Update (initialModel ''cat dog'') TickMsg = Inr m' \<and> wordsPerMinute m' = 0)"
proof -
  let ?m = "\<lparr>textInput = \<lparr>ti_value = ''c'', ti_pos = 1, ti_focus = True\<rparr>, ghostText = ''cat dog'',
          wordsPerMinute = 12, timer = \<lparr>Timeout = 8 * Second, Interval = Second, running = True\<rparr>,
          started = True, accuracy = 100, errorPositions = {}, maxTyped = 1\<rparr>"
  have h: "run (initialModel ''cat dog'') [KeyRunes ''c'', TickMsg, TickMsg] = Inr ?m"
    by code_simp
  have e: "(if \<not> Timedout (timer ?m) \<and> elapsed ?m \<ge> f64 (1 / 10)
            then go_int (f64 (f64 (f64 (of_nat (length (Value (textInput ?m)))) / 5) *
                              f64 (60 / elapsed ?m)))
            else wordsPerMinute ?m) = 6"
    by code_simp
  from words_per_minute_on_tick [OF h] e
  have later: "\<exists>m'. Update ?m TickMsg = Inr m' \<and> wordsPerMinute m' = 6 \<and> 0 \<le> wordsPerMinute m'"
    by auto
  have h0: "run (initialModel ''cat dog'') [] = Inr (initialModel ''cat dog'')"
    by simp
  have e0: "elapsed (initialModel ''cat dog'') < f64 (1 / 10)"
    by code_simp
  from words_per_minute_on_tick [OF h0] e0
  have "\<exists>m'. Update (initialModel ''cat dog'') TickMsg = Inr m' \<and> wordsPerMinute m' = 0"
    by blast
  with h later h0 e0 show ?thesis by blast
qed

text \<open>The \<open>float64\<close> product can fall just below the exact one: 41 characters
  after one second give 491, the exact quotient being 492.\<close>

lemma float64_product_below_exact:
  "go_int (f64 (f64 (f64 41 / 5) * f64 (60 / 1))) = 491 \<and> \<lfloor>(41 / 5) * (60 / 1 :: rat)\<rfloor> = 492"
  by code_simp

section \<open>Word selection\<close>

text \<open>
  C7.  A read error is returned as the error of \<open>getWords\<close>, and nothing else
  is.  But a word list without a usable word is not rejected: for a file that
  holds one empty line, \<open>getWords\<close> returns 200 empty words without an error and
  \<open>main\<close> starts the session on a ghost text of 199 spaces; for an empty file
  \<open>rand.Intn(0)\<close> panics.
\<close>

theorem empty_corpus_not_rejected:
  "getWords count (Inl err) rnd = Inr (Inl err) \<and>
   getWords count (Inr contents) rnd \<noteq> Inr (Inl err) \<and>
   getWords 200 (Inr ''\<newline>'') rnd = Inr (Inr (replicate 200 [])) \<and>
   main_model (Inr ''\<newline>'') rnd = Inr (Inr (initialModel (replicate 199 (CHR '' '')))) \<and>
   getWords 200 (Inr []) rnd = Inl InvalidArgumentToIntn"
proof -
  have e: "getWords count (Inl err) rnd = Inr (Inl err)"
    by (simp add: getWords_def)
  have n: "getWords count (Inr contents) rnd \<noteq> Inr (Inl err)"
    by (simp add: getWords_def Let_def split: sum.splits)
  have s: "strings_Split ''\<newline>'' = [[], []]" by simp
  have g: "getWords 200 (Inr ''\<newline>'') rnd = Inr (Inr (replicate 200 []))"
    by (subst getWords_result) (simp_all add: s nth_Cons' map_replicate_const)
  have "replicate 200 ([]::string) = replicate (Suc 199) []" by simp
  then have j: "strings_Join (replicate 200 []) [CHR '' ''] = replicate 199 (CHR '' '')"
    by (simp only: strings_Join_empty_words)
  have m: "main_model (Inr ''\<newline>'') rnd = Inr (Inr (initialModel (replicate 199 (CHR '' ''))))"
    by (simp add: main_model_def g j)
  have "getWords_loop (Suc 199) 0 rnd [[]] [] = Inl InvalidArgumentToIntn"
    by (rule getWords_loop_single) simp
  then have p: "getWords 200 (Inr []) rnd = Inl InvalidArgumentToIntn"
    by (simp add: getWords_def Let_def)
  from e n g m p show ?thesis by blast
qed

text \<open>
  C8, as stated, fails: the newline split of \<open>a\<newline>b\<close> has the entries \<open>a\<close> and
  \<open>b\<close>, and whatever the count and the random source, \<open>b\<close> is never among the
  selected words.
\<close>

theorem last_entry_never_selected_counterexample:
  "strings_Split ''a\<newline>b'' = [''a'', ''b''] \<and>
   \<not> (\<exists>count rnd ws. getWords count (Inr ''a\<newline>b'') rnd = Inr (Inr ws) \<and> ''b'' \<in> set ws)"
proof -
  have s: "strings_Split ''a\<newline>b'' = [''a'', ''b'']" by simp
  have "''b'' \<notin> set ws" if "getWords count (Inr ''a\<newline>b'') rnd = Inr (Inr ws)" for count rnd ws
  proof -
    have "getWords count (Inr ''a\<newline>b'') rnd = Inr (Inr (map (\<lambda>j. ''a'') [0..<nat count]))"
      by (subst getWords_result) (simp_all add: s)
    with that have "ws = map (\<lambda>j. ''a'') [0..<nat count]" by simp
    then show ?thesis by auto
  qed
  with s show ?thesis by blast
qed

text \<open>
  C8, amended.  For every positive count and every word list whose newline
  split has at least two entries, \<open>getWords\<close> returns, without an error, \<open>count\<close>
  entries of the split.  Every sequence of \<open>count\<close> entries taken from all but
  the last entry of the split is the selection for some random source: each of
  these entries can be chosen at each position, whatever is chosen at the
  others.  (For a list that ends with a newline the last entry of the split is
  the empty string behind it, and these entries are the words of the list.)
  \<open>main\<close> joins the 200 selected words with single spaces to form the ghost
  text.
\<close>

theorem getWords_selects_among_all_but_last:
  assumes "0 < count" and "2 \<le> length (strings_Split contents)"
  shows "(\<exists>ws. getWords count (Inr contents) rnd = Inr (Inr ws) \<and> length ws = nat count \<and>
            (\<forall>j<nat count. ws ! j \<in> set (strings_Split contents))) \<and>
         ((\<forall>j<nat count. f j < length (strings_Split contents) - 1) \<longrightarrow>
            (\<exists>rnd'. getWords count (Inr contents) rnd' =
                      Inr (Inr (map (\<lambda>j. strings_Split contents ! f j) [0..<nat count])))) \<and>
         (\<exists>ws. getWords 200 (Inr contents) rnd = Inr (Inr ws) \<and>
               main_model (Inr contents) rnd = Inr (Inr (initialModel (strings_Join ws [CHR '' '']))))"
proof -
  let ?words = "strings_Split contents"
  let ?n = "length ?words - 1"
  from assms(2) have n: "0 < ?n" by simp
  have "rnd j mod ?n < length ?words" for j
  proof -
    from n have "rnd j mod ?n < ?n" by simp
    then show ?thesis by arith
  qed
  then have first: "\<exists>ws. getWords count (Inr contents) rnd = Inr (Inr ws) \<and> length ws = nat count \<and>
            (\<forall>j<nat count. ws ! j \<in> set ?words)"
    by (simp add: getWords_result [OF assms(2)])
  have second: "(\<forall>j<nat count. f j < ?n) \<longrightarrow>
            (\<exists>rnd'. getWords count (Inr contents) rnd' =
                      Inr (Inr (map (\<lambda>j. ?words ! f j) [0..<nat count])))"
  proof
    assume "\<forall>j<nat count. f j < ?n"
    then have "map (\<lambda>j. ?words ! (f j mod ?n)) [0..<nat count] = map (\<lambda>j. ?words ! f j) [0..<nat count]"
      by simp
    with getWords_result [OF assms(2), of count f]
    have "getWords count (Inr contents) f = Inr (Inr (map (\<lambda>j. ?words ! f j) [0..<nat count]))"
      by (simp only:)
    then show "\<exists>rnd'. getWords count (Inr contents) rnd' = Inr (Inr (map (\<lambda>j. ?words ! f j) [0..<nat count]))"
      by (rule exI [of _ f])
  qed
  have third: "\<exists>ws. getWords 200 (Inr contents) rnd = Inr (Inr ws) \<and>
               main_model (Inr contents) rnd = Inr (Inr (initialModel (strings_Join ws [CHR '' ''])))"
    by (simp add: main_model_def getWords_result [OF assms(2)])
  from first second third show ?thesis by blast
qed

text \<open>The list \<open>a\<close>, \<open>b\<close>, \<open>c\<close> with a final newline: the split has the fourth,
  empty entry, and the three words can be selected in any order.\<close>

theorem getWords_selects_among_all_but_last_witness:
  "0 < (3::int) \<and> 2 \<le> length (strings_Split ''a\<newline>b\<newline>c\<newline>'') \<and>
   strings_Split ''a\<newline>b\<newline>c\<newline>'' = [''a'', ''b'', ''c'', []] \<and>
   (\<exists>ws. getWords 3 (Inr ''a\<newline>b\<newline>c\<newline>'') (\<lambda>j. j) = Inr (Inr ws) \<and> length ws = 3) \<and>
   (\<exists>rnd'. getWords 3 (Inr ''a\<newline>b\<newline>c\<newline>'') rnd' = Inr (Inr [''c'', ''b'', ''a'']))"
proof -
  have s: "strings_Split ''a\<newline>b\<newline>c\<newline>'' = [''a'', ''b'', ''c'', []]" by simp
  have h1: "0 < (3::int)" by simp
  have h2: "2 \<le> length (strings_Split ''a\<newline>b\<newline>c\<newline>'')" by (simp add: s)
  have h3: "\<forall>j<nat 3. 2 - j < length (strings_Split ''a\<newline>b\<newline>c\<newline>'') - 1"
    by (auto simp add: s)
  have u: "map (\<lambda>j. strings_Split ''a\<newline>b\<newline>c\<newline>'' ! (2 - j)) [0..<nat 3] = [''c'', ''b'', ''a'']"
    by code_simp
  note inst = getWords_selects_among_all_but_last [OF h1 h2, of "\<lambda>j. j" "\<lambda>j. 2 - j"]
  from inst have "\<exists>ws. getWords 3 (Inr ''a\<newline>b\<newline>c\<newline>'') (\<lambda>j. j) = Inr (Inr ws) \<and> length ws = 3"
    by auto
  moreover from inst h3
  have "\<exists>rnd'. getWords 3 (Inr ''a\<newline>b\<newline>c\<newline>'') rnd' =
      Inr (Inr (map (\<lambda>j. strings_Split ''a\<newline>b\<newline>c\<newline>'' ! (2 - j)) [0..<nat 3]))"
    by blast
  then have "\<exists>rnd'. getWords 3 (Inr ''a\<newline>b\<newline>c\<newline>'') rnd' = Inr (Inr [''c'', ''b'', ''a''])"
    by (simp only: u)
  ultimately show ?thesis using h1 h2 s by blast
qed

end
